theory Spec2Isabelle
  imports Complex_Main
begin

section \<open>The lid-driven cavity solver of workshop3/C\_expanded/src/lidCavity.c\<close>

text \<open>
  The program is one function, \<^verbatim>\<open>main\<close>. It allocates six two-dimensional buffers of
  doubles, seeds the lid velocity, and runs a do-while loop; each pass computes the next
  velocity and pressure fields from the current ones, computes four residuals, tests
  them, writes a log line and swaps the current and next pointers.

  The embedding keeps the program's structure: the six buffers live in a heap indexed by
  buffer identity, the six pointer variables \<^verbatim>\<open>u, un, v, vn, p, pn\<close> are fields of the
  state, every \<^verbatim>\<open>for\<close> loop is a fold over its index range that writes one cell per
  step, and the do-while loop is a recursive function with a termination proof.

  Doubles. The HOL library used here has no IEEE-754 binary64 type, so the type
  of a double is a type variable \<open>'a\<close> that carries only the syntax of \<open>+\<close>, \<open>-\<close>, \<open>*\<close>, \<open>/\<close>
  and \<open><\<close> (the classes \<open>plus\<close>, \<open>minus\<close>, \<open>times\<close>, \<open>inverse\<close>, \<open>ord\<close> state no law).
  What \<^verbatim>\<open>math.h\<close> supplies (\<^verbatim>\<open>pow\<close>, \<^verbatim>\<open>sqrt\<close>, \<^verbatim>\<open>fmin\<close>, \<^verbatim>\<open>isnan\<close>) and the value of a
  decimal literal come from an environment record. A theorem stated for every \<open>'a\<close> and
  every environment therefore holds whatever the arithmetic does, rounding and
  not-a-number included; no theorem below uses associativity, commutativity or any other
  law of the arithmetic unless it says so.
\<close>

subsection \<open>Grid extents (lines 52-55)\<close>

text \<open>
  \<^verbatim>\<open>IX\<close> and \<^verbatim>\<open>IY\<close> are macros of \<^verbatim>\<open>functions.h\<close>; the header under
  \<^verbatim>\<open>src/workshop3/C_parallel/src/lidCavity.h\<close> defines both as 128, and the comment at the
  head of \<^verbatim>\<open>lidCavity.c\<close> says "Grid size : 128 x 128". No proof below unfolds the two
  numbers except to establish \<open>2 \<le> IX\<close> and \<open>2 \<le> IY\<close>.
\<close>

definition IX :: nat where "IX = 128"
definition IY :: nat where "IY = 128"

definition xlo :: nat where "xlo = 1"
definition xhi :: nat where "xhi = IX - 1"
definition xtot :: nat where "xtot = IX + 1"
definition ylo :: nat where "ylo = 1"
definition yhi :: nat where "yhi = IY - 1"
definition ytot :: nat where "ytot = IY + 1"

subsection \<open>Buffers, heap, environment\<close>

text \<open>
  A buffer \<^verbatim>\<open>double **\<close> is read and written as \<^verbatim>\<open>b[i][j]\<close>. The extents are
  \<open>IX \<times> ytot\<close> for u, \<open>xtot \<times> IY\<close> for v and \<open>xtot \<times> ytot\<close> for p (lines 101-119); every
  index the loops below form lies inside them when \<open>2 \<le> IX\<close> and \<open>2 \<le> IY\<close>.
\<close>

type_synonym 'a grid = "nat \<Rightarrow> nat \<Rightarrow> 'a"

datatype bufid = Ubufo | Ubufn | Vbufo | Vbufn | Pbufo | Pbufn

type_synonym 'a heap = "bufid \<Rightarrow> 'a grid"

text \<open>
  The environment: \<open>lit m e\<close> is the double denoted by the decimal literal
  \<open>m \<times> 10\<^sup>e\<close> (so \<^verbatim>\<open>0.25\<close> is \<open>lit 25 (-2)\<close>, \<^verbatim>\<open>1.0e-7\<close> is \<open>lit 1 (-7)\<close>, and
  \<^verbatim>\<open>(double) (IX - 1)\<close> is \<open>lit 127 0\<close>); \<open>pow\<close>, \<open>sqrt_d\<close>, \<open>fmin\<close>, \<open>isnan\<close> are those of
  \<^verbatim>\<open>math.h\<close>. \<open>set_UBC\<close> and \<open>set_PBC\<close> are the two boundary passes of
  \<^verbatim>\<open>functions.c\<close>, which is not among the sources: each is a function of the buffers it
  is handed (and of the scalars), returning their new contents. Theorems that quantify
  over the environment hold for every implementation of the two passes.
\<close>

record 'a env =
  lit :: "int \<Rightarrow> int \<Rightarrow> 'a"
  pow :: "'a \<Rightarrow> 'a \<Rightarrow> 'a"
  sqrt_d :: "'a \<Rightarrow> 'a"
  fmin :: "'a \<Rightarrow> 'a \<Rightarrow> 'a"
  isnan :: "'a \<Rightarrow> bool"
  set_UBC :: "'a grid \<Rightarrow> 'a grid \<Rightarrow> 'a list \<Rightarrow> 'a list \<Rightarrow> 'a grid \<times> 'a grid"
  set_PBC :: "'a grid \<Rightarrow> 'a list \<Rightarrow> 'a \<Rightarrow> 'a \<Rightarrow> 'a grid"

text \<open>The scalars \<^verbatim>\<open>main\<close> computes once, before the loop (lines 40-46, 58-59, 86-97).\<close>

record 'a params =
  ubc :: "'a list"
  vbc :: "'a list"
  pbc :: "'a list"
  Re_number :: 'a
  cfl :: 'a
  c2 :: 'a
  tol :: 'a
  dx :: 'a
  dy :: 'a
  dt :: 'a
  nu :: 'a
  dtdx :: 'a
  dtdy :: 'a
  dtdxx :: 'a
  dtdyy :: 'a
  dtdxdy :: 'a

definition setup_params ::
  "('a::{plus,minus,times,inverse,ord}) env \<Rightarrow> 'a \<Rightarrow> 'a params" where
  "setup_params e r =
    (let ubc0 = [lit e 1 0, lit e 0 0, lit e 0 0, lit e 0 0];
         vbc0 = [lit e 0 0, lit e 0 0, lit e 0 0, lit e 0 0];
         pbc0 = [lit e 0 0, lit e 0 0, lit e 0 0, lit e 0 0];
         tol0 = lit e 1 (-7);
         l_lid = lit e 1 0;
         cfl0 = (if r < lit e 500 0 then lit e 15 (-2)
                 else if r < lit e 2000 0 then lit e 20 (-2) else lit e 5 (-2));
         c20 = (if r < lit e 500 0 then lit e 5 0
                else if r < lit e 2000 0 then lit e 58 (-1) else lit e 58 (-1));
         dx0 = l_lid / lit e (int (IX - 1)) 0;
         dy0 = dx0;
         dt0 = cfl0 * fmin e dx0 dy0 / (ubc0 ! 0);
         nu0 = (ubc0 ! 0) * l_lid / r
     in \<lparr> ubc = ubc0, vbc = vbc0, pbc = pbc0, Re_number = r, cfl = cfl0, c2 = c20,
          tol = tol0, dx = dx0, dy = dy0, dt = dt0, nu = nu0,
          dtdx = dt0 / dx0, dtdy = dt0 / dy0,
          dtdxx = dt0 / (dx0 * dx0), dtdyy = dt0 / (dy0 * dy0),
          dtdxdy = dt0 * dx0 * dy0 \<rparr>)"

text \<open>
  The program state the loop works on: the heap, the six pointer variables, the
  iteration counter and the lines written to the residual log so far.
\<close>

record 'a residuals =
  err_tot :: 'a
  err_u :: 'a
  err_v :: 'a
  err_p :: 'a
  err_d :: 'a

record 'a state =
  heap :: "'a heap"
  u :: bufid
  un :: bufid
  v :: bufid
  vn :: bufid
  p :: bufid
  pn :: bufid
  itr :: int
  flog :: "(int \<times> 'a residuals) list"

subsection \<open>Loops and cell writes\<close>

definition for_loop :: "nat \<Rightarrow> nat \<Rightarrow> (nat \<Rightarrow> 's \<Rightarrow> 's) \<Rightarrow> 's \<Rightarrow> 's" where
  "for_loop lo hi body = fold body [lo..<hi]"

definition write_cell :: "bufid \<Rightarrow> nat \<Rightarrow> nat \<Rightarrow> 'a \<Rightarrow> 'a heap \<Rightarrow> 'a heap" where
  "write_cell b i j x h = h(b := (h b)(i := (h b i)(j := x)))"

subsection \<open>The three update loops (lines 136-179)\<close>

text \<open>
  The right-hand sides, with C's precedence and left-to-right association written as
  Isabelle parses them too: \<open>a - b * c * d - e + f\<close> is \<open>((a - ((b * c) * d)) - e) + f\<close>.
  \<^verbatim>\<open>pow(x, 2)\<close> converts the integer 2 to the double 2.0.
\<close>

definition u_rhs ::
  "('a::{plus,minus,times}) env \<Rightarrow> 'a params \<Rightarrow> 'a grid \<Rightarrow> 'a grid \<Rightarrow> 'a grid \<Rightarrow> nat \<Rightarrow> nat \<Rightarrow> 'a" where
  "u_rhs e q U V P i j =
     U i j
     - lit e 25 (-2) * dtdx q * (pow e (U (i+1) j + U i j) (lit e 2 0)
                                 - pow e (U i j + U (i-1) j) (lit e 2 0))
     - lit e 25 (-2) * dtdy q * ((U i (j+1) + U i j)
                                 * (V (i+1) j + V i j)
                                 - (U i j + U i (j-1))
                                 * (V (i+1) (j-1) + V i (j-1)))
     - dtdx q * (P (i+1) j - P i j)
     + nu q * (dtdxx q * (U (i+1) j - lit e 2 0 * U i j + U (i-1) j)
               + dtdyy q * (U i (j+1) - lit e 2 0 * U i j + U i (j-1)))"

definition v_rhs ::
  "('a::{plus,minus,times}) env \<Rightarrow> 'a params \<Rightarrow> 'a grid \<Rightarrow> 'a grid \<Rightarrow> 'a grid \<Rightarrow> nat \<Rightarrow> nat \<Rightarrow> 'a" where
  "v_rhs e q U V P i j =
     V i j
     - lit e 25 (-2) * dtdx q * ((U i (j+1) + U i j)
                                 * (V (i+1) j + V i j)
                                 - (U (i-1) (j+1) + U (i-1) j)
                                 * (V i j + V (i-1) j))
     - lit e 25 (-2) * dtdy q * (pow e (V i (j+1) + V i j) (lit e 2 0)
                                 - pow e (V i j + V i (j-1)) (lit e 2 0))
     - dtdy q * (P i (j+1) - P i j)
     + nu q * (dtdxx q * (V (i+1) j - lit e 2 0 * V i j + V (i-1) j)
               + dtdyy q * (V i (j+1) - lit e 2 0 * V i j + V i (j-1)))"

definition p_rhs ::
  "('a::{plus,minus,times}) params \<Rightarrow> 'a grid \<Rightarrow> 'a grid \<Rightarrow> 'a grid \<Rightarrow> nat \<Rightarrow> nat \<Rightarrow> 'a" where
  "p_rhs q P Unext Vnext i j =
     P i j - c2 q * ((Unext i j - Unext (i-1) j) * dtdx q
                     + (Vnext i j - Vnext i (j-1)) * dtdy q)"

text \<open>
  Each loop reads the heap as it is when the cell is computed, through the pointers it
  is given, and writes one cell of the target buffer.
\<close>

definition u_momentum ::
  "('a::{plus,minus,times}) env \<Rightarrow> 'a params \<Rightarrow> 'a state \<Rightarrow> 'a heap \<Rightarrow> 'a heap" where
  "u_momentum e q s =
     for_loop xlo xhi (\<lambda>i.
       for_loop ylo (ytot - 1) (\<lambda>j h.
         write_cell (un s) i j (u_rhs e q (h (u s)) (h (v s)) (h (p s)) i j) h))"

definition v_momentum ::
  "('a::{plus,minus,times}) env \<Rightarrow> 'a params \<Rightarrow> 'a state \<Rightarrow> 'a heap \<Rightarrow> 'a heap" where
  "v_momentum e q s =
     for_loop xlo (xtot - 1) (\<lambda>i.
       for_loop ylo yhi (\<lambda>j h.
         write_cell (vn s) i j (v_rhs e q (h (u s)) (h (v s)) (h (p s)) i j) h))"

definition continuity ::
  "('a::{plus,minus,times}) params \<Rightarrow> 'a state \<Rightarrow> 'a heap \<Rightarrow> 'a heap" where
  "continuity q s =
     for_loop xlo (xtot - 1) (\<lambda>i.
       for_loop ylo (ytot - 1) (\<lambda>j h.
         write_cell (pn s) i j (p_rhs q (h (p s)) (h (un s)) (h (vn s)) i j) h))"

subsection \<open>The boundary passes as \<^verbatim>\<open>main\<close> calls them (lines 131-132, 170, 181)\<close>

text \<open>
  \<^verbatim>\<open>set_UBC(u, v, ubc, vbc)\<close> receives two buffer pointers and may change those two
  buffers; \<^verbatim>\<open>set_PBC(p, pbc, dx, dy)\<close> receives one. The buffers are named by the pointer
  arguments of the call.
\<close>

definition call_set_UBC :: "'a env \<Rightarrow> 'a params \<Rightarrow> bufid \<Rightarrow> bufid \<Rightarrow> 'a heap \<Rightarrow> 'a heap" where
  "call_set_UBC e q ub vb h =
     (let r = set_UBC e (h ub) (h vb) (ubc q) (vbc q)
      in (h(ub := fst r))(vb := snd r))"

definition call_set_PBC :: "'a env \<Rightarrow> 'a params \<Rightarrow> bufid \<Rightarrow> 'a heap \<Rightarrow> 'a heap" where
  "call_set_PBC e q pb h = h(pb := set_PBC e (h pb) (pbc q) (dx q) (dy q))"

subsection \<open>Residuals (lines 183-201)\<close>

text \<open>
  One nested loop carries the four accumulators; the loop is read in its sequential
  order (the OpenMP pragma lets the additions of the reduction be grouped otherwise).
\<close>

definition l2_sums ::
  "('a::{plus,minus,times}) env \<Rightarrow> 'a params \<Rightarrow> 'a state \<Rightarrow> 'a heap \<Rightarrow> 'a \<times> 'a \<times> 'a \<times> 'a" where
  "l2_sums e q s h =
     for_loop xlo xhi (\<lambda>i.
       for_loop ylo yhi (\<lambda>j (eu, ev, ep, ed).
         (eu + pow e (h (un s) i j - h (u s) i j) (lit e 2 0),
          ev + pow e (h (vn s) i j - h (v s) i j) (lit e 2 0),
          ep + pow e (h (pn s) i j - h (p s) i j) (lit e 2 0),
          ed + ((h (un s) i j - h (un s) (i-1) j) * dtdx q
                + (h (vn s) i j - h (vn s) i (j-1)) * dtdy q))))
       (lit e 0 0, lit e 0 0, lit e 0 0, lit e 0 0)"

text \<open>
  Modelled from the spec: \<^verbatim>\<open>fmaxof\<close> is declared in the header
  (\<^verbatim>\<open>double fmaxof(double errs, ...)\<close>, "Find maximum of a set of float numbers") and
  defined in \<^verbatim>\<open>functions.c\<close>, which is not among the sources. Section 4.4 of the spec:
  err\_tot = max(err\_u, err\_v, err\_p, err\_d).
\<close>

definition fmaxof :: "('a::ord) \<Rightarrow> 'a \<Rightarrow> 'a \<Rightarrow> 'a \<Rightarrow> 'a" where
  "fmaxof a b c d = max (max (max a b) c) d"

definition l2_norm ::
  "('a::{plus,minus,times,ord}) env \<Rightarrow> 'a params \<Rightarrow> 'a state \<Rightarrow> 'a heap \<Rightarrow> 'a residuals" where
  "l2_norm e q s h =
     (case l2_sums e q s h of (eu, ev, ep, ed) \<Rightarrow>
        let eu1 = sqrt_d e (dtdxdy q * eu);
            ev1 = sqrt_d e (dtdxdy q * ev);
            ep1 = sqrt_d e (dtdxdy q * ep)
        in \<lparr> err_tot = fmaxof eu1 ev1 ep1 ed,
             err_u = eu1, err_v = ev1, err_p = ep1, err_d = ed \<rparr>)"

subsection \<open>One pass of the loop body\<close>

text \<open>
  Lines 136-201: the two momentum loops, the velocity boundary pass, the continuity
  loop, the pressure boundary pass and the residuals. The result is the residuals and
  the heap; the pointers, the counter and the log are untouched so far.
\<close>

definition compute_step ::
  "('a::{plus,minus,times,ord}) env \<Rightarrow> 'a params \<Rightarrow> 'a state \<Rightarrow> 'a residuals \<times> 'a heap" where
  "compute_step e q s =
     (let h1 = u_momentum e q s (heap s);
          h2 = v_momentum e q s h1;
          h3 = call_set_UBC e q (u s) (v s) h2;
          h4 = continuity q s h3;
          h5 = call_set_PBC e q (p s) h4
      in (l2_norm e q s h5, h5))"

text \<open>Lines 212-229: the log line, the three pointer swaps, the counter.\<close>

definition commit :: "'a residuals \<Rightarrow> 'a state \<Rightarrow> 'a state" where
  "commit r s =
     s\<lparr> flog := flog s @ [(itr s, r)],
        u := un s, un := u s,
        v := vn s, vn := v s,
        p := pn s, pn := p s,
        itr := itr s + 1 \<rparr>"

subsection \<open>The do-while loop and the exits (lines 135, 203-210, 229-241, 260-269)\<close>

datatype outcome = Converged | Diverged | MaxIterationsExceeded

text \<open>
  What a run leaves behind: which message it printed (the outcome), the process exit
  status, the buffers handed to \<^verbatim>\<open>freeMem\<close> before the exit, and the state at the exit.
  \<^verbatim>\<open>freeMem\<close> itself is in \<^verbatim>\<open>functions.c\<close>; all three exits call it with the six
  allocation pointers \<^verbatim>\<open>ubufo, vbufo, pbufo, ubufn, vbufn, pbufn\<close>.
\<close>

record 'a result =
  outcome :: outcome
  exit_code :: int
  freed :: "bufid list"
  final :: "'a state"

definition EXIT_SUCCESS :: int where "EXIT_SUCCESS = 0"
definition EXIT_FAILURE :: int where "EXIT_FAILURE = 1"
definition itr_max :: int where "itr_max = 1000000"

definition all_buffers :: "bufid list" where
  "all_buffers = [Ubufo, Vbufo, Pbufo, Ubufn, Vbufn, Pbufn]"

text \<open>
  The loop takes the numerical part of the body as an argument \<open>compute\<close>, so that the
  control flow can be studied for every sequence of residuals; \<^verbatim>\<open>main\<close> passes
  \<open>compute_step\<close>. The order is the source's: the not-a-number test comes before the log
  line and the swaps; the loop condition is tested after the counter has been
  incremented; the test \<^verbatim>\<open>itr == itr_max\<close> comes after the loop.
\<close>

function solver_loop ::
  "('a::ord) env \<Rightarrow> 'a params \<Rightarrow> ('a state \<Rightarrow> 'a residuals \<times> 'a heap) \<Rightarrow> 'a state \<Rightarrow> 'a result" where
  "solver_loop e q compute s =
     (let r = fst (compute s);
          s1 = s\<lparr> heap := snd (compute s) \<rparr>
      in if isnan e (err_tot r) then
           \<lparr> outcome = Diverged, exit_code = EXIT_FAILURE, freed = all_buffers, final = s1 \<rparr>
         else
           let s2 = commit r s1
           in if err_tot r > tol q \<and> itr s2 < itr_max then solver_loop e q compute s2
              else if itr s2 = itr_max then
                \<lparr> outcome = MaxIterationsExceeded, exit_code = EXIT_FAILURE,
                  freed = all_buffers, final = s2 \<rparr>
              else
                \<lparr> outcome = Converged, exit_code = EXIT_SUCCESS,
                  freed = all_buffers, final = s2 \<rparr>)"
  by pat_completeness auto
termination
  by (relation "measure (\<lambda>(e, q, c, s). nat (itr_max - itr s))") (auto simp: commit_def)

subsection \<open>Allocation, initial conditions and \<^verbatim>\<open>main\<close> (lines 62-132)\<close>

text \<open>
  Modelled from the spec: \<^verbatim>\<open>array_2d\<close> is defined in \<^verbatim>\<open>functions.c\<close>, which is not among
  the sources. Section 4.1 of the spec: allocate(rows, cols) returns a zero-initialized
  2D buffer.
\<close>

definition array_2d :: "'a env \<Rightarrow> nat \<Rightarrow> nat \<Rightarrow> 'a grid" where
  "array_2d e rows cols = (\<lambda>i j. lit e 0 0)"

definition allocate :: "'a env \<Rightarrow> 'a heap" where
  "allocate e = (\<lambda>b. case b of
       Ubufo \<Rightarrow> array_2d e IX ytot | Ubufn \<Rightarrow> array_2d e IX ytot
     | Vbufo \<Rightarrow> array_2d e xtot IY | Vbufn \<Rightarrow> array_2d e xtot IY
     | Pbufo \<Rightarrow> array_2d e xtot ytot | Pbufn \<Rightarrow> array_2d e xtot ytot)"

text \<open>Lines 101-128: the state once the initial conditions are applied, before line 131.\<close>

definition seeded_state :: "'a env \<Rightarrow> 'a params \<Rightarrow> 'a state" where
  "seeded_state e q =
     \<lparr> heap = for_loop xlo xhi (\<lambda>i h.
                 write_cell Ubufo i (ytot - 2) (ubc q ! 0)
                   (write_cell Ubufo i (ytot - 1) (ubc q ! 0) h))
               (allocate e),
       u = Ubufo, un = Ubufn, v = Vbufo, vn = Vbufn, p = Pbufo, pn = Pbufn,
       itr = 1, flog = [] \<rparr>"

text \<open>Lines 131-132: the two boundary passes before the loop.\<close>

definition initial_state :: "'a env \<Rightarrow> 'a params \<Rightarrow> 'a state" where
  "initial_state e q =
     (let s = seeded_state e q
      in s\<lparr> heap := call_set_PBC e q (p s) (call_set_UBC e q (u s) (v s) (heap s)) \<rparr>)"

text \<open>
  \<^verbatim>\<open>main\<close>: the Reynolds number is 100.0 without an argument, else what \<^verbatim>\<open>strtod\<close> read.
\<close>

definition lidCavity_main ::
  "('a::{plus,minus,times,inverse,ord}) env \<Rightarrow> 'a option \<Rightarrow> 'a result" where
  "lidCavity_main e arg =
     (let r = (case arg of None \<Rightarrow> lit e 100 0 | Some x \<Rightarrow> x);
          q = setup_params e r
      in solver_loop e q (compute_step e q) (initial_state e q))"

subsection \<open>Notions the statements use\<close>

text \<open>
  The six pointer variables name six different buffers. It holds in the initial state and
  is kept by the swaps.
\<close>

definition distinct_ptrs :: "'a state \<Rightarrow> bool" where
  "distinct_ptrs s = distinct [u s, un s, v s, vn s, p s, pn s]"

text \<open>
  The cells the three update loops range over (lines 138-139, 155-156, 174-175). For
  each buffer they are the cells that are not on the one-cell ring around its extents:
  \<open>IX \<times> ytot\<close> for u, \<open>xtot \<times> IY\<close> for v, \<open>xtot \<times> ytot\<close> for p.
\<close>

definition u_interior :: "nat \<Rightarrow> nat \<Rightarrow> bool" where
  "u_interior i j = (xlo \<le> i \<and> i < xhi \<and> ylo \<le> j \<and> j < ytot - 1)"

definition v_interior :: "nat \<Rightarrow> nat \<Rightarrow> bool" where
  "v_interior i j = (xlo \<le> i \<and> i < xtot - 1 \<and> ylo \<le> j \<and> j < yhi)"

definition p_interior :: "nat \<Rightarrow> nat \<Rightarrow> bool" where
  "p_interior i j = (xlo \<le> i \<and> i < xtot - 1 \<and> ylo \<le> j \<and> j < ytot - 1)"

text \<open>
  A pass that does not leave the loop: the body's numerical part, then the log line, the
  swaps and the counter. \<open>state_at compute s n\<close> is the state at the head of pass
  \<open>n + 1\<close> of a run from \<open>s\<close> whose first \<open>n\<close> passes stayed in the loop, and
  \<open>err_at compute s n\<close> the value of \<^verbatim>\<open>err_tot\<close> that pass \<open>n + 1\<close> computes.
\<close>

definition pass :: "('a state \<Rightarrow> 'a residuals \<times> 'a heap) \<Rightarrow> 'a state \<Rightarrow> 'a state" where
  "pass compute s = commit (fst (compute s)) (s\<lparr> heap := snd (compute s) \<rparr>)"

definition state_at :: "('a state \<Rightarrow> 'a residuals \<times> 'a heap) \<Rightarrow> 'a state \<Rightarrow> nat \<Rightarrow> 'a state" where
  "state_at compute s n = (pass compute ^^ n) s"

definition err_at :: "('a state \<Rightarrow> 'a residuals \<times> 'a heap) \<Rightarrow> 'a state \<Rightarrow> nat \<Rightarrow> 'a" where
  "err_at compute s n = err_tot (fst (compute (state_at compute s n)))"

text \<open>
  A sum over a list of cells, added in the order of the list onto 0.0.
  \<open>residual_window\<close> lists the cells \<open>xlo \<le> i < xhi\<close>, \<open>ylo \<le> j < yhi\<close> row by row;
  \<open>u_cells\<close> lists the cells of \<open>u_interior\<close> in the same way.
\<close>

definition sum_cells :: "('a::plus) env \<Rightarrow> (nat \<times> nat) list \<Rightarrow> (nat \<Rightarrow> nat \<Rightarrow> 'a) \<Rightarrow> 'a" where
  "sum_cells e cs f = foldl (\<lambda>acc (i, j). acc + f i j) (lit e 0 0) cs"

definition residual_window :: "(nat \<times> nat) list" where
  "residual_window = List.product [xlo..<xhi] [ylo..<yhi]"

definition u_cells :: "(nat \<times> nat) list" where
  "u_cells = List.product [xlo..<xhi] [ylo..<ytot - 1]"

text \<open>
  What the comparisons of doubles give on values that are not not-a-number: any two
  are comparable, \<open><\<close> is the complement of the converse of \<open>\<le>\<close>, and \<open>\<le>\<close> is
  transitive.
\<close>

definition number_order :: "('a::ord) env \<Rightarrow> bool" where
  "number_order e =
     (\<forall>a b c. \<not> isnan e a \<and> \<not> isnan e b \<and> \<not> isnan e c \<longrightarrow>
        (a < b \<or> b \<le> a) \<and> (a \<le> b \<or> b \<le> a) \<and> (a \<le> b \<and> b \<le> c \<longrightarrow> a \<le> c))"

text \<open>The local discrete divergence of a velocity field at the cell \<open>(i, j)\<close>.\<close>

definition divergence :: "('a::{plus,minus,times}) params \<Rightarrow> 'a grid \<Rightarrow> 'a grid \<Rightarrow> nat \<Rightarrow> nat \<Rightarrow> 'a" where
  "divergence q U V i j = (U i j - U (i-1) j) * dtdx q + (V i j - V i (j-1)) * dtdy q"

subsection \<open>A reference interpretation of the doubles\<close>

text \<open>
  For statements at concrete inputs the type variable needs a value. \<open>ideal\<close> is exact
  real arithmetic with one not-a-number that every operation propagates and no
  comparison accepts. It rounds nothing, so it is not binary64; it is used only where a
  statement needs some concrete arithmetic. \<open>pow\<close> with an integral exponent is the
  exact power, as \<^verbatim>\<open>pow(x, 2)\<close> is \<open>x * x\<close>.
\<close>

datatype ideal = Num real | NaN

instantiation ideal :: "{plus,minus,times,inverse,ord}"
begin

definition plus_ideal :: "ideal \<Rightarrow> ideal \<Rightarrow> ideal" where
  "plus_ideal a b = (case (a, b) of (Num x, Num y) \<Rightarrow> Num (x + y) | _ \<Rightarrow> NaN)"

definition minus_ideal :: "ideal \<Rightarrow> ideal \<Rightarrow> ideal" where
  "minus_ideal a b = (case (a, b) of (Num x, Num y) \<Rightarrow> Num (x - y) | _ \<Rightarrow> NaN)"

definition times_ideal :: "ideal \<Rightarrow> ideal \<Rightarrow> ideal" where
  "times_ideal a b = (case (a, b) of (Num x, Num y) \<Rightarrow> Num (x * y) | _ \<Rightarrow> NaN)"

definition divide_ideal :: "ideal \<Rightarrow> ideal \<Rightarrow> ideal" where
  "divide_ideal a b =
     (case (a, b) of (Num x, Num y) \<Rightarrow> (if y = 0 then NaN else Num (x / y)) | _ \<Rightarrow> NaN)"

definition inverse_ideal :: "ideal \<Rightarrow> ideal" where
  "inverse_ideal a = (case a of Num x \<Rightarrow> (if x = 0 then NaN else Num (inverse x)) | _ \<Rightarrow> NaN)"

definition less_ideal :: "ideal \<Rightarrow> ideal \<Rightarrow> bool" where
  "less_ideal a b = (case (a, b) of (Num x, Num y) \<Rightarrow> x < y | _ \<Rightarrow> False)"

definition less_eq_ideal :: "ideal \<Rightarrow> ideal \<Rightarrow> bool" where
  "less_eq_ideal a b = (case (a, b) of (Num x, Num y) \<Rightarrow> x \<le> y | _ \<Rightarrow> False)"

instance ..

end

text \<open>
  Modelled from the spec: \<^verbatim>\<open>set_UBC\<close> and \<^verbatim>\<open>set_PBC\<close> are defined in \<^verbatim>\<open>functions.c\<close>,
  which is not among the sources. Sections 4.2 and 8 of the spec: after a pass, for all
  boundary cells, u and v equal the configured Dirichlet values {top, left, bottom,
  right} exactly, and the pressure boundary ring equals its nearest interior neighbor.
  The spec does not say which edge a corner cell belongs to; top and bottom are taken
  first here.
\<close>

definition dirichlet :: "nat \<Rightarrow> nat \<Rightarrow> 'a list \<Rightarrow> 'a grid \<Rightarrow> 'a grid" where
  "dirichlet nx ny bc g =
     (\<lambda>i j. if j = ny - 1 then bc ! 0
            else if j = 0 then bc ! 2
            else if i = 0 then bc ! 1
            else if i = nx - 1 then bc ! 3
            else g i j)"

definition nearest_interior :: "nat \<Rightarrow> nat \<Rightarrow> nat" where
  "nearest_interior n k = max 1 (min (n - 2) k)"

definition set_UBC_spec :: "'a grid \<Rightarrow> 'a grid \<Rightarrow> 'a list \<Rightarrow> 'a list \<Rightarrow> 'a grid \<times> 'a grid" where
  "set_UBC_spec U V ub vb = (dirichlet IX ytot ub U, dirichlet xtot IY vb V)"

definition set_PBC_spec :: "'a grid \<Rightarrow> 'a list \<Rightarrow> 'a \<Rightarrow> 'a \<Rightarrow> 'a grid" where
  "set_PBC_spec P pb ddx ddy = (\<lambda>i j. P (nearest_interior xtot i) (nearest_interior ytot j))"

definition ideal_env :: "ideal env" where
  "ideal_env =
     \<lparr> lit = (\<lambda>m k. Num (if 0 \<le> k then of_int m * 10 ^ nat k else of_int m / 10 ^ nat (- k))),
       pow = (\<lambda>a b. case (a, b) of
                (Num x, Num y) \<Rightarrow>
                  (if y = of_int \<lfloor>y\<rfloor> then Num (x powi \<lfloor>y\<rfloor>)
                   else if x < 0 then NaN else Num (x powr y))
              | _ \<Rightarrow> NaN),
       sqrt_d = (\<lambda>a. case a of Num x \<Rightarrow> (if x < 0 then NaN else Num (sqrt x)) | _ \<Rightarrow> NaN),
       fmin = (\<lambda>a b. case (a, b) of (Num x, Num y) \<Rightarrow> Num (min x y) | (NaN, y) \<Rightarrow> y | (x, NaN) \<Rightarrow> x),
       isnan = (\<lambda>a. a = NaN),
       set_UBC = set_UBC_spec,
       set_PBC = set_PBC_spec \<rparr>"

text \<open>
  A numerical part that replays a given sequence of residuals, indexed by the iteration
  counter, and leaves the heap alone: the loop's control flow at a chosen sequence.
\<close>

definition scripted :: "(int \<Rightarrow> 'a) \<Rightarrow> 'a state \<Rightarrow> 'a residuals \<times> 'a heap" where
  "scripted errs s =
     (\<lparr> err_tot = errs (itr s), err_u = errs (itr s), err_v = errs (itr s),
        err_p = errs (itr s), err_d = errs (itr s) \<rparr>, heap s)"

text \<open>
  The run \<^verbatim>\<open>lidCavity -1000000\<close> in the reference interpretation: its scalars, its
  initial state and the heap its first pass ends with.
\<close>

definition neg_params :: "ideal params" where
  "neg_params = setup_params ideal_env (Num (- 1000000))"

definition neg_start :: "ideal state" where
  "neg_start = initial_state ideal_env neg_params"

definition neg_heap :: "ideal heap" where
  "neg_heap = snd (compute_step ideal_env neg_params neg_start)"

section \<open>Facts about the loops\<close>

lemma IX_ge: "2 \<le> IX"
  by (simp add: IX_def)
lemma IY_ge: "2 \<le> IY"
  by (simp add: IY_def)

lemma for_loop_empty: "hi \<le> lo \<Longrightarrow> for_loop lo hi body s = s"
  by (simp add: for_loop_def)

lemma for_loop_Suc: "lo \<le> hi \<Longrightarrow> for_loop lo (Suc hi) body s = body hi (for_loop lo hi body s)"
  by (simp add: for_loop_def)

text \<open>
  A nested loop that writes the cell \<open>(i, j)\<close> of one buffer \<open>T\<close> with a value computed
  from buffers other than \<open>T\<close> leaves every other cell as it was, and gives each cell of
  its range the value computed from the heap the loop started with.
\<close>

lemma row_loop_write:
  assumes indep: "\<And>g h'. f (h'(T := g)) = f h'"
  shows "for_loop jlo jhi (\<lambda>j h. write_cell T i j (f h j) h) h =
         h(T := (h T)(i := (\<lambda>j. if jlo \<le> j \<and> j < jhi then f h j else h T i j)))"
proof (induction jhi)
  case 0
  show ?case by (simp add: for_loop_empty fun_eq_iff)
next
  case (Suc n)
  show ?case
  proof (cases "jlo \<le> n")
    case True
    define H where "H = h(T := (h T)(i := (\<lambda>j. if jlo \<le> j \<and> j < n then f h j else h T i j)))"
    have fH: "f H = f h" unfolding H_def by (rule indep)
    have "for_loop jlo (Suc n) (\<lambda>j h. write_cell T i j (f h j) h) h =
        write_cell T i n (f H n) H"
      unfolding H_def Suc [symmetric] using True by (simp only: for_loop_Suc)
    also have "\<dots> = h(T := (h T)(i := (\<lambda>j. if jlo \<le> j \<and> j < Suc n then f h j else h T i j)))"
      unfolding fH using True by (auto simp: H_def write_cell_def fun_eq_iff)
    finally show ?thesis .
  next
    case False
    then show ?thesis
      by (auto simp: for_loop_empty fun_eq_iff)
  qed
qed

lemma grid_loop_write:
  assumes indep: "\<And>g h'. f (h'(T := g)) = f h'"
  shows "for_loop ilo ihi (\<lambda>i. for_loop jlo jhi (\<lambda>j h. write_cell T i j (f h i j) h)) h =
         h(T := (\<lambda>i j. if ilo \<le> i \<and> i < ihi \<and> jlo \<le> j \<and> j < jhi then f h i j else h T i j))"
proof (induction ihi)
  case 0
  show ?case by (simp add: for_loop_empty fun_eq_iff)
next
  case (Suc n)
  show ?case
  proof (cases "ilo \<le> n")
    case True
    define H where "H = h(T := (\<lambda>i j. if ilo \<le> i \<and> i < n \<and> jlo \<le> j \<and> j < jhi then f h i j else h T i j))"
    have fH: "f H = f h" unfolding H_def by (rule indep)
    have indep': "\<And>g h'. (\<lambda>h j. f h n j) (h'(T := g)) = (\<lambda>h j. f h n j) h'"
      by (simp only: indep)
    have "for_loop ilo (Suc n) (\<lambda>i. for_loop jlo jhi (\<lambda>j h. write_cell T i j (f h i j) h)) h =
        for_loop jlo jhi (\<lambda>j h. write_cell T n j (f h n j) h) H"
      unfolding H_def Suc [symmetric] using True by (simp only: for_loop_Suc)
    also have "\<dots> = H(T := (H T)(n := (\<lambda>j. if jlo \<le> j \<and> j < jhi then f H n j else H T n j)))"
      by (rule row_loop_write [where f = "\<lambda>h j. f h n j", OF indep'])
    also have "\<dots> = h(T := (\<lambda>i j. if ilo \<le> i \<and> i < Suc n \<and> jlo \<le> j \<and> j < jhi then f h i j else h T i j))"
      unfolding fH using True by (auto simp: H_def fun_eq_iff)
    finally show ?thesis .
  next
    case False
    then show ?thesis
      by (auto simp: for_loop_empty fun_eq_iff)
  qed
qed

subsection \<open>The update loops and the loop body\<close>

lemma u_momentum_eq:
  assumes "distinct_ptrs s"
  shows "u_momentum e q s h =
     h(un s := (\<lambda>i j. if xlo \<le> i \<and> i < xhi \<and> ylo \<le> j \<and> j < ytot - 1
                       then u_rhs e q (h (u s)) (h (v s)) (h (p s)) i j else h (un s) i j))"
  unfolding u_momentum_def
  using assms
  by (subst grid_loop_write [where f = "\<lambda>h i j. u_rhs e q (h (u s)) (h (v s)) (h (p s)) i j"])
     (auto simp: distinct_ptrs_def)


lemma v_momentum_eq:
  assumes "distinct_ptrs s"
  shows "v_momentum e q s h =
     h(vn s := (\<lambda>i j. if xlo \<le> i \<and> i < xtot - 1 \<and> ylo \<le> j \<and> j < yhi
                       then v_rhs e q (h (u s)) (h (v s)) (h (p s)) i j else h (vn s) i j))"
  unfolding v_momentum_def
  using assms
  by (subst grid_loop_write [where f = "\<lambda>h i j. v_rhs e q (h (u s)) (h (v s)) (h (p s)) i j"])
     (auto simp: distinct_ptrs_def)

lemma continuity_eq:
  assumes "distinct_ptrs s"
  shows "continuity q s h =
     h(pn s := (\<lambda>i j. if xlo \<le> i \<and> i < xtot - 1 \<and> ylo \<le> j \<and> j < ytot - 1
                       then p_rhs q (h (p s)) (h (un s)) (h (vn s)) i j else h (pn s) i j))"
  unfolding continuity_def
  using assms
  by (subst grid_loop_write [where f = "\<lambda>h i j. p_rhs q (h (p s)) (h (un s)) (h (vn s)) i j"])
     (auto simp: distinct_ptrs_def)

lemma ptrs_neq:
  assumes "distinct_ptrs s"
  shows "u s \<noteq> un s" "u s \<noteq> v s" "u s \<noteq> vn s" "u s \<noteq> p s" "u s \<noteq> pn s"
        "un s \<noteq> v s" "un s \<noteq> vn s" "un s \<noteq> p s" "un s \<noteq> pn s"
        "v s \<noteq> vn s" "v s \<noteq> p s" "v s \<noteq> pn s"
        "vn s \<noteq> p s" "vn s \<noteq> pn s" "p s \<noteq> pn s"
  using assms by (auto simp: distinct_ptrs_def)

lemma u_momentum_other: "distinct_ptrs s \<Longrightarrow> b \<noteq> un s \<Longrightarrow> u_momentum e q s h b = h b"
  by (simp add: u_momentum_eq)

lemma v_momentum_other: "distinct_ptrs s \<Longrightarrow> b \<noteq> vn s \<Longrightarrow> v_momentum e q s h b = h b"
  by (simp add: v_momentum_eq)

lemma continuity_other: "distinct_ptrs s \<Longrightarrow> b \<noteq> pn s \<Longrightarrow> continuity q s h b = h b"
  by (simp add: continuity_eq)

lemma u_momentum_un:
  "distinct_ptrs s \<Longrightarrow> u_momentum e q s h (un s) =
     (\<lambda>i j. if xlo \<le> i \<and> i < xhi \<and> ylo \<le> j \<and> j < ytot - 1
             then u_rhs e q (h (u s)) (h (v s)) (h (p s)) i j else h (un s) i j)"
  by (simp add: u_momentum_eq)

lemma v_momentum_vn:
  "distinct_ptrs s \<Longrightarrow> v_momentum e q s h (vn s) =
     (\<lambda>i j. if xlo \<le> i \<and> i < xtot - 1 \<and> ylo \<le> j \<and> j < yhi
             then v_rhs e q (h (u s)) (h (v s)) (h (p s)) i j else h (vn s) i j)"
  by (simp add: v_momentum_eq)

lemma continuity_pn:
  "distinct_ptrs s \<Longrightarrow> continuity q s h (pn s) =
     (\<lambda>i j. if xlo \<le> i \<and> i < xtot - 1 \<and> ylo \<le> j \<and> j < ytot - 1
             then p_rhs q (h (p s)) (h (un s)) (h (vn s)) i j else h (pn s) i j)"
  by (simp add: continuity_eq)

lemma call_set_UBC_other: "b \<noteq> ub \<Longrightarrow> b \<noteq> vb \<Longrightarrow> call_set_UBC e q ub vb h b = h b"
  by (simp add: call_set_UBC_def Let_def)

lemma call_set_PBC_other: "b \<noteq> pb \<Longrightarrow> call_set_PBC e q pb h b = h b"
  by (simp add: call_set_PBC_def)

lemma compute_step_un:
  assumes d: "distinct_ptrs s"
  shows "snd (compute_step e q s) (un s) = u_momentum e q s (heap s) (un s)"
  using ptrs_neq [OF d] ptrs_neq [OF d, symmetric]
  by (simp add: compute_step_def Let_def call_set_UBC_other call_set_PBC_other
        continuity_other [OF d] v_momentum_other [OF d])

lemma compute_step_vn:
  assumes d: "distinct_ptrs s"
  shows "snd (compute_step e q s) (vn s) = v_momentum e q s (u_momentum e q s (heap s)) (vn s)"
  using ptrs_neq [OF d] ptrs_neq [OF d, symmetric]
  by (simp add: compute_step_def Let_def call_set_UBC_other call_set_PBC_other
        continuity_other [OF d])

lemma compute_step_pn:
  assumes d: "distinct_ptrs s"
  shows "snd (compute_step e q s) (pn s) =
          (\<lambda>i j. if xlo \<le> i \<and> i < xtot - 1 \<and> ylo \<le> j \<and> j < ytot - 1
                  then p_rhs q (heap s (p s))
                         (v_momentum e q s (u_momentum e q s (heap s)) (un s))
                         (v_momentum e q s (u_momentum e q s (heap s)) (vn s)) i j
                  else heap s (pn s) i j)"
  using ptrs_neq [OF d] ptrs_neq [OF d, symmetric]
  by (simp add: compute_step_def Let_def call_set_UBC_other call_set_PBC_other
        continuity_pn [OF d] v_momentum_other [OF d] u_momentum_other [OF d] cong: if_cong)


subsection \<open>The pointers, the counter and the do-while loop\<close>

lemma distinct_ptrs_initial: "distinct_ptrs (initial_state e q)"
  by (simp add: distinct_ptrs_def initial_state_def seeded_state_def Let_def)

lemma distinct_ptrs_pass: "distinct_ptrs s \<Longrightarrow> distinct_ptrs (pass c s)"
  by (auto simp: distinct_ptrs_def pass_def commit_def)

lemma state_at_Suc: "state_at c s (Suc n) = pass c (state_at c s n)"
  by (simp add: state_at_def)

lemma state_at_0: "state_at c s 0 = s"
  by (simp add: state_at_def)

lemma distinct_ptrs_state_at: "distinct_ptrs s \<Longrightarrow> distinct_ptrs (state_at c s n)"
  by (induction n) (simp_all add: state_at_0 state_at_Suc distinct_ptrs_pass)

lemma itr_pass: "itr (pass c s) = itr s + 1"
  by (simp add: pass_def commit_def)

lemma itr_state_at: "itr (state_at c s n) = itr s + int n"
  by (induction n) (simp_all add: state_at_0 state_at_Suc itr_pass)

declare solver_loop.simps [simp del]

lemma solver_loop_continue:
  assumes "\<not> isnan e (err_tot (fst (c s)))" "err_tot (fst (c s)) > tol q" "itr s + 1 < itr_max"
  shows "solver_loop e q c s = solver_loop e q c (pass c s)"
  using assms by (subst solver_loop.simps) (simp add: Let_def pass_def commit_def)

lemma solver_loop_diverge:
  assumes "isnan e (err_tot (fst (c s)))"
  shows "solver_loop e q c s =
     \<lparr> outcome = Diverged, exit_code = EXIT_FAILURE, freed = all_buffers,
       final = s\<lparr> heap := snd (c s) \<rparr> \<rparr>"
  using assms by (subst solver_loop.simps) (simp add: Let_def)

lemma solver_loop_stop:
  assumes "\<not> isnan e (err_tot (fst (c s)))" "\<not> (err_tot (fst (c s)) > tol q \<and> itr s + 1 < itr_max)"
  shows "solver_loop e q c s =
     (if itr s + 1 = itr_max
      then \<lparr> outcome = MaxIterationsExceeded, exit_code = EXIT_FAILURE, freed = all_buffers,
             final = pass c s \<rparr>
      else \<lparr> outcome = Converged, exit_code = EXIT_SUCCESS, freed = all_buffers,
             final = pass c s \<rparr>)"
  using assms by (subst solver_loop.simps) (auto simp: Let_def pass_def commit_def)

lemma solver_loop_unroll:
  assumes "\<forall>k<n. \<not> isnan e (err_at c s k) \<and> err_at c s k > tol q" "itr s + int n < itr_max"
  shows "solver_loop e q c s = solver_loop e q c (state_at c s n)"
  using assms
proof (induction n)
  case 0
  show ?case by (simp add: state_at_0)
next
  case (Suc n)
  have "solver_loop e q c s = solver_loop e q c (state_at c s n)"
    using Suc by simp
  also have "\<dots> = solver_loop e q c (pass c (state_at c s n))"
    using Suc.prems by (intro solver_loop_continue) (simp_all add: err_at_def itr_state_at)
  finally show ?case by (simp add: state_at_Suc)
qed

subsection \<open>The reference interpretation and the initial state\<close>

lemma tol_setup: "tol (setup_params e r) = lit e 1 (-7)"
  by (simp add: setup_params_def Let_def)

lemma ubc_setup: "ubc (setup_params e r) = [lit e 1 0, lit e 0 0, lit e 0 0, lit e 0 0]"
  by (simp add: setup_params_def Let_def)

lemma itr_initial: "itr (initial_state e q) = 1"
  by (simp add: initial_state_def seeded_state_def Let_def)

lemma flog_initial: "flog (initial_state e q) = []"
  by (simp add: initial_state_def seeded_state_def Let_def)

lemma err_at_scripted: "err_at (scripted errs) s n = errs (itr s + int n)"
  by (simp add: err_at_def scripted_def itr_state_at)

lemma less_ideal_Num: "(Num x < Num y) = (x < y)"
  by (simp add: less_ideal_def)

lemma lit_ideal: "lit ideal_env m k = Num (if 0 \<le> k then of_int m * 10 ^ nat k else of_int m / 10 ^ nat (- k))"
  by (simp add: ideal_env_def)

lemma isnan_ideal: "isnan ideal_env x = (x = NaN)"
  by (simp add: ideal_env_def)

lemma state_at_shift: "state_at c (pass c s) n = state_at c s (Suc n)"
  by (simp add: state_at_def funpow_swap1)

lemma solver_loop_exit_pass:
  "\<exists>n. int n < max 1 (itr_max - itr s) \<and>
     (let res = solver_loop e q c s; t = state_at c s n
      in (outcome res = Diverged \<and> final res = t\<lparr> heap := snd (c t) \<rparr>)
         \<or> (outcome res \<noteq> Diverged \<and> final res = pass c t))"
proof (induction "nat (itr_max - itr s)" arbitrary: s rule: less_induct)
  case less
  show ?case
  proof (cases "isnan e (err_tot (fst (c s)))")
    case True
    then show ?thesis
      by (intro exI [of _ 0]) (simp add: solver_loop_diverge state_at_0 Let_def)
  next
    case nonan: False
    show ?thesis
    proof (cases "err_tot (fst (c s)) > tol q \<and> itr s + 1 < itr_max")
      case True
      then have eq: "solver_loop e q c s = solver_loop e q c (pass c s)"
        using nonan by (intro solver_loop_continue) simp_all
      have "nat (itr_max - itr (pass c s)) < nat (itr_max - itr s)"
        using True by (simp add: itr_pass)
      from less [OF this] obtain n where
        n: "int n < max 1 (itr_max - itr (pass c s))"
        and ex: "let res = solver_loop e q c (pass c s); t = state_at c (pass c s) n
          in (outcome res = Diverged \<and> final res = t\<lparr> heap := snd (c t) \<rparr>)
             \<or> (outcome res \<noteq> Diverged \<and> final res = pass c t)"
        by blast
      have "int (Suc n) < max 1 (itr_max - itr s)"
        using n True by (simp add: itr_pass)
      moreover have "let res = solver_loop e q c s; t = state_at c s (Suc n)
          in (outcome res = Diverged \<and> final res = t\<lparr> heap := snd (c t) \<rparr>)
             \<or> (outcome res \<noteq> Diverged \<and> final res = pass c t)"
        using ex by (simp add: eq state_at_shift)
      ultimately show ?thesis by blast
    next
      case False
      then show ?thesis
        using nonan
        by (intro exI [of _ 0]) (auto simp: solver_loop_stop state_at_0 Let_def)
    qed
  qed
qed

lemma flog_pass: "flog (pass c s) = flog s @ [(itr s, fst (c s))]"
  by (simp add: pass_def commit_def)

lemma logged_itrs: "map fst (flog (state_at c s n)) = map fst (flog s) @ map (\<lambda>k. itr s + int k) [0..<n]"
  by (induction n) (simp_all add: state_at_0 state_at_Suc flog_pass itr_state_at)

lemma UNIV_bufid: "set all_buffers = UNIV"
proof -
  have "b \<in> set all_buffers" for b by (cases b) (simp_all add: all_buffers_def)
  then show ?thesis by auto
qed


subsection \<open>The scalars, the residual sums, the initial heap\<close>

lemma setup_ratios:
  "dtdx (setup_params e r) = dt (setup_params e r) / dx (setup_params e r)"
  "dtdy (setup_params e r) = dt (setup_params e r) / dy (setup_params e r)"
  "dtdxx (setup_params e r) = dt (setup_params e r) / (dx (setup_params e r) * dx (setup_params e r))"
  "dtdyy (setup_params e r) = dt (setup_params e r) / (dy (setup_params e r) * dy (setup_params e r))"
  "dtdxdy (setup_params e r) = dt (setup_params e r) * dx (setup_params e r) * dy (setup_params e r)"
  by (simp_all add: setup_params_def Let_def)

lemma interior_11: "u_interior 1 1" "v_interior 1 1" "p_interior 1 1"
  by (simp_all add: u_interior_def v_interior_def p_interior_def xlo_def xhi_def xtot_def
        ylo_def yhi_def ytot_def IX_def IY_def)

lemma for_loop_four:
  "for_loop lo hi (\<lambda>k (a, b, c, d). (fa k a, fb k b, fc k c, fd k d)) (a0, b0, c0, d0) =
     (for_loop lo hi fa a0, for_loop lo hi fb b0, for_loop lo hi fc c0, for_loop lo hi fd d0)"
proof (induction hi)
  case 0
  show ?case by (simp add: for_loop_empty)
next
  case (Suc n)
  show ?case
  proof (cases "lo \<le> n")
    case True
    then show ?thesis by (simp add: for_loop_Suc Suc)
  next
    case False
    then show ?thesis by (simp add: for_loop_empty)
  qed
qed

lemma for_loop_four_fun:
  "for_loop lo hi (\<lambda>k (a, b, c, d). (fa k a, fb k b, fc k c, fd k d)) =
     (\<lambda>(a, b, c, d). (for_loop lo hi fa a, for_loop lo hi fb b,
                       for_loop lo hi fc c, for_loop lo hi fd d))"
  by (simp add: fun_eq_iff for_loop_four)

lemma fold_product:
  "fold (\<lambda>i. fold (\<lambda>j. g i j) ys) xs a = fold (\<lambda>(i, j). g i j) (List.product xs ys) a"
proof (induction xs arbitrary: a)
  case Nil
  show ?case by simp
next
  case (Cons x xs)
  have "fold (\<lambda>(i, j). g i j) (map (Pair x) ys) b = fold (\<lambda>j. g x j) ys b" for b
    by (simp add: fold_map comp_def)
  then show ?case by (simp add: Cons)
qed

lemma nest_is_sum_cells:
  "for_loop ilo ihi (\<lambda>i. for_loop jlo jhi (\<lambda>j acc. acc + f i j)) (lit e 0 0)
     = sum_cells e (List.product [ilo..<ihi] [jlo..<jhi]) f"
proof -
  have "(\<lambda>x s. (case x of (i, j) \<Rightarrow> \<lambda>acc. acc + f i j) s) = (\<lambda>x s. case x of (i, j) \<Rightarrow> s + f i j)"
    by (simp add: fun_eq_iff split: prod.splits)
  then show ?thesis
    unfolding for_loop_def sum_cells_def foldl_conv_fold
    by (simp add: fold_product [of "\<lambda>i j acc. acc + f i j"] case_prod_unfold)
qed

lemma l2_sums_cells:
  "l2_sums e q s h =
     (sum_cells e residual_window (\<lambda>i j. pow e (h (un s) i j - h (u s) i j) (lit e 2 0)),
      sum_cells e residual_window (\<lambda>i j. pow e (h (vn s) i j - h (v s) i j) (lit e 2 0)),
      sum_cells e residual_window (\<lambda>i j. pow e (h (pn s) i j - h (p s) i j) (lit e 2 0)),
      sum_cells e residual_window (divergence q (h (un s)) (h (vn s))))"
  unfolding residual_window_def nest_is_sum_cells [symmetric] l2_sums_def divergence_def
  by (simp add: for_loop_four_fun)

lemma set_residual_window:
  "set residual_window = {(i, j). xlo \<le> i \<and> i < xhi \<and> ylo \<le> j \<and> j < yhi}"
  by (auto simp: residual_window_def)

lemma set_u_cells: "set u_cells = {(i, j). u_interior i j}"
  by (auto simp: u_cells_def u_interior_def)

lemma sum_cells_sum_list:
  fixes f :: "nat \<Rightarrow> nat \<Rightarrow> 'a::comm_monoid_add"
  assumes "lit e 0 0 = 0"
  shows "sum_cells e cs f = (\<Sum>(i, j)\<leftarrow>cs. f i j)"
proof -
  have "foldl (\<lambda>acc (i, j). acc + f i j) a cs = a + (\<Sum>(i, j)\<leftarrow>cs. f i j)" for a
    by (induction cs arbitrary: a) (auto simp: add.assoc)
  then show ?thesis by (simp add: sum_cells_def assms)
qed

lemma sum_cells_window_is_sum:
  fixes f :: "nat \<Rightarrow> nat \<Rightarrow> 'a::comm_monoid_add"
  assumes "lit e 0 0 = 0"
  shows "sum_cells e residual_window f
         = (\<Sum>(i, j) \<in> {(i, j). xlo \<le> i \<and> i < xhi \<and> ylo \<le> j \<and> j < yhi}. f i j)"
proof -
  have "distinct residual_window"
    by (simp add: residual_window_def distinct_product)
  then have "(\<Sum>(i, j)\<leftarrow>residual_window. f i j) = (\<Sum>(i, j) \<in> set residual_window. f i j)"
    by (rule sum_list_distinct_conv_sum_set)
  then show ?thesis
    by (simp add: sum_cells_sum_list [OF assms] set_residual_window)
qed

lemma seed_loop:
  "for_loop lo hi (\<lambda>i h. write_cell B i j2 x (write_cell B i j1 x h)) h =
     h(B := (\<lambda>i j. if lo \<le> i \<and> i < hi \<and> (j = j1 \<or> j = j2) then x else h B i j))"
proof (induction hi)
  case 0
  show ?case by (simp add: for_loop_empty fun_eq_iff)
next
  case (Suc n)
  show ?case
  proof (cases "lo \<le> n")
    case True
    define H where "H = h(B := (\<lambda>i j. if lo \<le> i \<and> i < n \<and> (j = j1 \<or> j = j2) then x else h B i j))"
    have "for_loop lo (Suc n) (\<lambda>i h. write_cell B i j2 x (write_cell B i j1 x h)) h =
        write_cell B n j2 x (write_cell B n j1 x H)"
      unfolding H_def Suc [symmetric] using True by (simp only: for_loop_Suc)
    also have "\<dots> = h(B := (\<lambda>i j. if lo \<le> i \<and> i < Suc n \<and> (j = j1 \<or> j = j2) then x else h B i j))"
      using True by (auto simp: H_def write_cell_def fun_eq_iff)
    finally show ?thesis .
  next
    case False
    then show ?thesis by (auto simp: for_loop_empty fun_eq_iff)
  qed
qed

lemma allocate_zero: "allocate e b i j = lit e 0 0"
  by (cases b) (simp_all add: allocate_def array_2d_def)

lemma ptrs_seeded:
  "u (seeded_state e q) = Ubufo" "un (seeded_state e q) = Ubufn"
  "v (seeded_state e q) = Vbufo" "vn (seeded_state e q) = Vbufn"
  "p (seeded_state e q) = Pbufo" "pn (seeded_state e q) = Pbufn"
  by (simp_all add: seeded_state_def)

lemma heap_seeded:
  "heap (seeded_state e q) b i j =
     (if b = Ubufo \<and> xlo \<le> i \<and> i < xhi \<and> (j = ytot - 1 \<or> j = ytot - 2)
      then ubc q ! 0 else lit e 0 0)"
  by (auto simp: seeded_state_def seed_loop allocate_zero)

lemma heap_initial_next:
  "heap (initial_state e q) Ubufn i j = lit e 0 0"
  "heap (initial_state e q) Vbufn i j = lit e 0 0"
  "heap (initial_state e q) Pbufn i j = lit e 0 0"
  by (simp_all add: initial_state_def Let_def ptrs_seeded call_set_PBC_other
        call_set_UBC_other heap_seeded)

lemma ptrs_initial:
  "u (initial_state e q) = Ubufo" "un (initial_state e q) = Ubufn"
  "v (initial_state e q) = Vbufo" "vn (initial_state e q) = Vbufn"
  "p (initial_state e q) = Pbufo" "pn (initial_state e q) = Pbufn"
  by (simp_all add: initial_state_def Let_def seeded_state_def)

lemma compute_step_next_ring:
  assumes d: "distinct_ptrs s"
  shows "\<not> u_interior i j \<Longrightarrow> snd (compute_step e q s) (un s) i j = heap s (un s) i j"
    and "\<not> v_interior i j \<Longrightarrow> snd (compute_step e q s) (vn s) i j = heap s (vn s) i j"
    and "\<not> p_interior i j \<Longrightarrow> snd (compute_step e q s) (pn s) i j = heap s (pn s) i j"
  using ptrs_neq [OF d]
  by (auto simp: compute_step_un [OF d] compute_step_vn [OF d] compute_step_pn [OF d]
        u_momentum_un [OF d] v_momentum_vn [OF d] u_momentum_other [OF d]
        u_interior_def v_interior_def p_interior_def)

lemma pass_fields:
  "heap (pass c s) = snd (c s)" "u (pass c s) = un s" "un (pass c s) = u s"
  "v (pass c s) = vn s" "vn (pass c s) = v s" "p (pass c s) = pn s" "pn (pass c s) = p s"
  by (simp_all add: pass_def commit_def)

subsection \<open>The first pass of the run with Reynolds number \<open>- 1000000\<close>\<close>

lemma ideal_arith:
  "Num x + Num y = Num (x + y)"
  "Num x - Num y = Num (x - y)"
  "Num x * Num y = Num (x * y)"
  "y \<noteq> 0 \<Longrightarrow> Num x / Num y = Num (x / y)"
  by (simp_all add: plus_ideal_def minus_ideal_def times_ideal_def divide_ideal_def)

lemma pow_ideal_2: "pow ideal_env (Num x) (Num 2) = Num (x * x)"
  by (simp add: ideal_env_def power2_eq_square)

lemma sqrt_ideal: "0 \<le> x \<Longrightarrow> sqrt_d ideal_env (Num x) = Num (sqrt x)"
  by (simp add: ideal_env_def)

lemma fmin_ideal: "fmin ideal_env (Num x) (Num y) = Num (min x y)"
  by (simp add: ideal_env_def)

lemma neg_params_fields:
  "ubc neg_params = [Num 1, Num 0, Num 0, Num 0]"
  "vbc neg_params = [Num 0, Num 0, Num 0, Num 0]"
  "pbc neg_params = [Num 0, Num 0, Num 0, Num 0]"
  "tol neg_params = Num (1 / 10000000)"
  "c2 neg_params = Num 5"
  "nu neg_params = Num (- (1 / 1000000))"
  "dtdx neg_params = Num (15 / 100)"
  "dtdy neg_params = Num (15 / 100)"
  "dtdxx neg_params = Num (15 * 127 / 100)"
  "dtdyy neg_params = Num (15 * 127 / 100)"
  "dtdxdy neg_params = Num (15 / (100 * 127 * 127 * 127))"
  by (simp_all add: neg_params_def setup_params_def Let_def lit_ideal ideal_arith less_ideal_Num
        fmin_ideal IX_def)


lemmas grid_numbers = IX_def IY_def xlo_def xhi_def xtot_def ylo_def yhi_def ytot_def

lemma neg_start_ptrs:
  "u neg_start = Ubufo" "un neg_start = Ubufn" "v neg_start = Vbufo" "vn neg_start = Vbufn" "p neg_start = Pbufo" "pn neg_start = Pbufn"
  by (simp_all add: neg_start_def ptrs_initial)

lemma neg_start_distinct: "distinct_ptrs neg_start"
  by (simp add: neg_start_def distinct_ptrs_initial)

lemma neg_start_u: "heap neg_start Ubufo = (\<lambda>i j. Num (if j = 128 \<or> (0 < i \<and> i < 127 \<and> j = 127) then 1 else 0))"
  by (auto simp: neg_start_def initial_state_def Let_def ptrs_seeded call_set_PBC_def call_set_UBC_def
        ideal_env_def set_UBC_spec_def dirichlet_def heap_seeded neg_params_fields fun_eq_iff
        grid_numbers)

lemma neg_start_v: "heap neg_start Vbufo = (\<lambda>i j. Num 0)"
  by (auto simp: neg_start_def initial_state_def Let_def ptrs_seeded call_set_PBC_def call_set_UBC_def
        ideal_env_def set_UBC_spec_def dirichlet_def heap_seeded neg_params_fields fun_eq_iff
        grid_numbers)

lemma neg_start_p: "heap neg_start Pbufo = (\<lambda>i j. Num 0)"
  by (auto simp: neg_start_def initial_state_def Let_def ptrs_seeded call_set_PBC_def call_set_UBC_def
        ideal_env_def set_PBC_spec_def set_UBC_spec_def heap_seeded fun_eq_iff)

lemma neg_start_next: "heap neg_start Ubufn = (\<lambda>i j. Num 0)" "heap neg_start Vbufn = (\<lambda>i j. Num 0)"
  "heap neg_start Pbufn = (\<lambda>i j. Num 0)"
  by (simp_all add: neg_start_def heap_initial_next fun_eq_iff lit_ideal)


lemma compute_step_current:
  assumes d: "distinct_ptrs s"
  shows "snd (compute_step e q s) (u s) = fst (set_UBC e (heap s (u s)) (heap s (v s)) (ubc q) (vbc q))"
    and "snd (compute_step e q s) (v s) = snd (set_UBC e (heap s (u s)) (heap s (v s)) (ubc q) (vbc q))"
    and "snd (compute_step e q s) (p s) = set_PBC e (heap s (p s)) (pbc q) (dx q) (dy q)"
  using ptrs_neq [OF d] ptrs_neq [OF d, symmetric]
  by (simp_all add: compute_step_def Let_def call_set_UBC_def call_set_PBC_def
        continuity_other [OF d] v_momentum_other [OF d] u_momentum_other [OF d])

lemma neg_heap_un:
  assumes "1 \<le> i" "i < 127" "1 \<le> j" "j < 127"
  shows "neg_heap Ubufn i j = Num (if j = 126 then - (1905 / 100000000) else 0)"
proof -
  have "neg_heap Ubufn i j = u_rhs ideal_env neg_params (heap neg_start Ubufo) (heap neg_start Vbufo) (heap neg_start Pbufo) i j"
    using assms compute_step_un [OF neg_start_distinct, of ideal_env neg_params]
      u_momentum_un [OF neg_start_distinct, of ideal_env neg_params "heap neg_start"]
    by (simp add: neg_heap_def neg_start_ptrs grid_numbers)
  also have "\<dots> = Num (if j = 126 then - (1905 / 100000000) else 0)"
    using assms
    by (auto simp: u_rhs_def neg_start_u neg_start_v neg_start_p neg_params_fields lit_ideal ideal_arith pow_ideal_2)
  finally show ?thesis .
qed

lemma neg_heap_un_ring: "neg_heap Ubufn 0 j = Num 0"
  using compute_step_next_ring(1) [OF neg_start_distinct, of 0 j ideal_env neg_params]
  by (simp add: neg_heap_def neg_start_ptrs neg_start_next u_interior_def grid_numbers)

lemma neg_heap_vn:
  assumes "1 \<le> i" "i < 128" "1 \<le> j" "j < 127"
  shows "neg_heap Vbufn i j = Num 0"
proof -
  have "neg_heap Vbufn i j = v_rhs ideal_env neg_params (heap neg_start Ubufo) (heap neg_start Vbufo) (heap neg_start Pbufo) i j"
    using assms compute_step_vn [OF neg_start_distinct, of ideal_env neg_params]
      v_momentum_vn [OF neg_start_distinct, of ideal_env neg_params "u_momentum ideal_env neg_params neg_start (heap neg_start)"]
      u_momentum_other [OF neg_start_distinct, of _ ideal_env neg_params "heap neg_start"]
    by (simp add: neg_heap_def neg_start_ptrs grid_numbers)
  also have "\<dots> = Num 0"
    by (simp add: v_rhs_def neg_start_u neg_start_v neg_start_p neg_params_fields lit_ideal ideal_arith pow_ideal_2)
  finally show ?thesis .
qed

lemma neg_heap_vn_ring: "neg_heap Vbufn i 0 = Num 0"
  using compute_step_next_ring(2) [OF neg_start_distinct, of i 0 ideal_env neg_params]
  by (simp add: neg_heap_def neg_start_ptrs neg_start_next v_interior_def grid_numbers)


lemma neg_heap_current:
  assumes "1 \<le> i" "i < 127" "1 \<le> j" "j < 127"
  shows "neg_heap Ubufo i j = Num 0" "neg_heap Vbufo i j = Num 0" "neg_heap Pbufo i j = Num 0"
  using assms compute_step_current [OF neg_start_distinct, of ideal_env neg_params]
  by (simp_all add: neg_heap_def neg_start_ptrs neg_start_u neg_start_v neg_start_p ideal_env_def set_UBC_spec_def
        set_PBC_spec_def dirichlet_def neg_params_fields grid_numbers)

lemma neg_heap_vn_all:
  assumes "1 \<le> i" "i < 128" "j < 127"
  shows "neg_heap Vbufn i j = Num 0"
  using assms neg_heap_vn [of i j] neg_heap_vn_ring [of i] by (cases "j = 0") simp_all

lemma neg_heap_un_all:
  assumes "i < 127" "1 \<le> j" "j < 127"
  shows "neg_heap Ubufn i j = Num (if 1 \<le> i \<and> j = 126 then - (1905 / 100000000) else 0)"
  using assms neg_heap_un [of i j] neg_heap_un_ring [of j] by (cases "i = 0") simp_all

lemma neg_heap_pn:
  assumes "1 \<le> i" "i < 127" "1 \<le> j" "j < 127"
  shows "neg_heap Pbufn i j =
     Num (if i = 1 then (if j = 126 then 5 * (1905 / 100000000 * (15 / 100)) else 0) else 0)"
proof -
  have "neg_heap Pbufn i j = p_rhs neg_params (heap neg_start Pbufo) (neg_heap Ubufn) (neg_heap Vbufn) i j"
    using assms compute_step_pn [OF neg_start_distinct, of ideal_env neg_params]
      compute_step_un [OF neg_start_distinct, of ideal_env neg_params]
      compute_step_vn [OF neg_start_distinct, of ideal_env neg_params]
      v_momentum_other [OF neg_start_distinct, of "un neg_start" ideal_env neg_params "u_momentum ideal_env neg_params neg_start (heap neg_start)"]
      ptrs_neq [OF neg_start_distinct]
    by (simp add: neg_heap_def neg_start_ptrs grid_numbers)
  also have "\<dots> =
     Num (if i = 1 then (if j = 126 then 5 * (1905 / 100000000 * (15 / 100)) else 0) else 0)"
    using assms
    by (auto simp: p_rhs_def neg_start_p neg_heap_un_all neg_heap_vn_all neg_params_fields ideal_arith)
  finally show ?thesis .
qed


lemma row_sum_ideal:
  assumes "\<And>j. lo \<le> j \<Longrightarrow> j < hi \<Longrightarrow> f j = Num (g j)"
  shows "for_loop lo hi (\<lambda>j acc. acc + f j) (Num a) = Num (a + (\<Sum>j = lo..<hi. g j))"
  using assms
proof (induction hi)
  case 0
  show ?case by (simp add: for_loop_empty)
next
  case (Suc n)
  show ?case
  proof (cases "lo \<le> n")
    case True
    then show ?thesis using Suc by (simp add: for_loop_Suc ideal_arith)
  next
    case False
    then show ?thesis by (simp add: for_loop_empty)
  qed
qed

lemma grid_sum_ideal:
  assumes "\<And>i j. ilo \<le> i \<Longrightarrow> i < ihi \<Longrightarrow> jlo \<le> j \<Longrightarrow> j < jhi \<Longrightarrow> f i j = Num (g i j)"
  shows "for_loop ilo ihi (\<lambda>i. for_loop jlo jhi (\<lambda>j acc. acc + f i j)) (Num a) =
         Num (a + (\<Sum>i = ilo..<ihi. \<Sum>j = jlo..<jhi. g i j))"
  using assms
proof (induction ihi)
  case 0
  show ?case by (simp add: for_loop_empty)
next
  case (Suc n)
  show ?case
  proof (cases "ilo \<le> n")
    case True
    have row: "for_loop jlo jhi (\<lambda>j acc. acc + f n j) (Num b) = Num (b + (\<Sum>j = jlo..<jhi. g n j))" for b
      using True Suc.prems by (intro row_sum_ideal) simp
    from True show ?thesis using Suc by (simp add: for_loop_Suc row)
  next
    case False
    then show ?thesis by (simp add: for_loop_empty)
  qed
qed

lemma sum_cells_ideal:
  assumes "\<And>i j. ilo \<le> i \<Longrightarrow> i < ihi \<Longrightarrow> jlo \<le> j \<Longrightarrow> j < jhi \<Longrightarrow> f i j = Num (g i j)"
  shows "sum_cells ideal_env (List.product [ilo..<ihi] [jlo..<jhi]) f
         = Num (\<Sum>i = ilo..<ihi. \<Sum>j = jlo..<jhi. g i j)"
  using grid_sum_ideal [of ilo ihi jlo jhi f g 0] assms
  by (simp add: nest_is_sum_cells [symmetric] lit_ideal)

lemma residual_window_numbers: "residual_window = List.product [1..<127] [1..<127]"
  by (simp add: residual_window_def grid_numbers)

lemma u_cells_numbers: "u_cells = List.product [1..<127] [1..<128]"
  by (simp add: u_cells_def grid_numbers)

lemma sum_last_row:
  "(\<Sum>i = (1::nat)..<127. \<Sum>j = (1::nat)..<127. if j = 126 then c else (0::real)) = 126 * c"
  by (simp add: sum.delta)

lemma sum_one_cell:
  "(\<Sum>i = (1::nat)..<127. \<Sum>j = (1::nat)..<127.
      if i = 1 then (if j = 126 then c else 0) else (0::real)) = c"
proof -
  have "(\<Sum>j = (1::nat)..<127. if i = 1 then (if j = 126 then c else 0) else (0::real))
        = (if i = 1 then c else 0)" for i :: nat
    by (cases "i = 1") (simp_all add: sum.delta)
  then show ?thesis by (simp add: sum.delta)
qed


lemma neg_l2_sums:
  "l2_sums ideal_env neg_params neg_start neg_heap =
     (Num (126 * (1905 / 100000000 * (1905 / 100000000))),
      Num 0,
      Num (5 * (1905 / 100000000 * (15 / 100)) * (5 * (1905 / 100000000 * (15 / 100)))),
      Num (- (1905 / 100000000 * (15 / 100))))"
proof -
  let ?w = "List.product [1..<127] [1..<127]"
  have "sum_cells ideal_env ?w
        (\<lambda>i j. pow ideal_env (neg_heap Ubufn i j - neg_heap Ubufo i j) (lit ideal_env 2 0))
      = Num (\<Sum>i = (1::nat)..<127. \<Sum>j = (1::nat)..<127.
               if j = 126 then 1905 / 100000000 * (1905 / 100000000) else 0)"
    by (rule sum_cells_ideal)
       (simp add: neg_heap_un_all neg_heap_current lit_ideal ideal_arith pow_ideal_2)
  then have su: "sum_cells ideal_env ?w
        (\<lambda>i j. pow ideal_env (neg_heap Ubufn i j - neg_heap Ubufo i j) (lit ideal_env 2 0))
      = Num (126 * (1905 / 100000000 * (1905 / 100000000)))"
    by (simp only: sum_last_row)
  have "sum_cells ideal_env ?w
        (\<lambda>i j. pow ideal_env (neg_heap Vbufn i j - neg_heap Vbufo i j) (lit ideal_env 2 0))
      = Num (\<Sum>i = (1::nat)..<127. \<Sum>j = (1::nat)..<127. 0)"
    by (rule sum_cells_ideal)
       (simp add: neg_heap_vn_all neg_heap_current lit_ideal ideal_arith pow_ideal_2)
  then have sv: "sum_cells ideal_env ?w
        (\<lambda>i j. pow ideal_env (neg_heap Vbufn i j - neg_heap Vbufo i j) (lit ideal_env 2 0))
      = Num 0"
    by simp
  have "sum_cells ideal_env ?w
        (\<lambda>i j. pow ideal_env (neg_heap Pbufn i j - neg_heap Pbufo i j) (lit ideal_env 2 0))
      = Num (\<Sum>i = (1::nat)..<127. \<Sum>j = (1::nat)..<127.
               if i = 1 then (if j = 126
                 then 5 * (1905 / 100000000 * (15 / 100)) * (5 * (1905 / 100000000 * (15 / 100)))
                 else 0) else 0)"
    by (rule sum_cells_ideal)
       (simp add: neg_heap_pn neg_heap_current lit_ideal ideal_arith pow_ideal_2)
  then have sp: "sum_cells ideal_env ?w
        (\<lambda>i j. pow ideal_env (neg_heap Pbufn i j - neg_heap Pbufo i j) (lit ideal_env 2 0))
      = Num (5 * (1905 / 100000000 * (15 / 100)) * (5 * (1905 / 100000000 * (15 / 100))))"
    by (simp only: sum_one_cell)
  have "sum_cells ideal_env ?w (divergence neg_params (neg_heap Ubufn) (neg_heap Vbufn))
      = Num (\<Sum>i = (1::nat)..<127. \<Sum>j = (1::nat)..<127.
               if i = 1 then (if j = 126 then - (1905 / 100000000 * (15 / 100)) else 0) else 0)"
    by (rule sum_cells_ideal)
       (auto simp: divergence_def neg_heap_un_all neg_heap_vn_all neg_params_fields ideal_arith)
  then have sd: "sum_cells ideal_env ?w (divergence neg_params (neg_heap Ubufn) (neg_heap Vbufn))
      = Num (- (1905 / 100000000 * (15 / 100)))"
    by (simp only: sum_one_cell)
  show ?thesis
    unfolding l2_sums_cells residual_window_numbers neg_start_ptrs su sv sp sd ..
qed

lemma neg_heap_un_top:
  assumes "1 \<le> i" "i < 127"
  shows "neg_heap Ubufn i 127 =
     Num (if i = 1 then 8875381 / 10000000
          else if i = 126 then 11125381 / 10000000 else 100001905 / 100000000)"
proof -
  have "neg_heap Ubufn i 127
      = u_rhs ideal_env neg_params (heap neg_start Ubufo) (heap neg_start Vbufo) (heap neg_start Pbufo) i 127"
    using assms compute_step_un [OF neg_start_distinct, of ideal_env neg_params]
      u_momentum_un [OF neg_start_distinct, of ideal_env neg_params "heap neg_start"]
    by (simp add: neg_heap_def neg_start_ptrs grid_numbers)
  also have "\<dots> = Num (if i = 1 then 8875381 / 10000000
          else if i = 126 then 11125381 / 10000000 else 100001905 / 100000000)"
    using assms
    by (auto simp: u_rhs_def neg_start_u neg_start_v neg_start_p neg_params_fields lit_ideal
          ideal_arith pow_ideal_2)
  finally show ?thesis .
qed

lemma neg_heap_u_top:
  assumes "1 \<le> i" "i < 127"
  shows "neg_heap Ubufo i 127 = Num 1"
  using assms compute_step_current [OF neg_start_distinct, of ideal_env neg_params]
  by (simp add: neg_heap_def neg_start_ptrs neg_start_u neg_start_v ideal_env_def
        set_UBC_spec_def dirichlet_def neg_params_fields grid_numbers)

lemma sum_split_top:
  fixes g :: "nat \<Rightarrow> real"
  shows "(\<Sum>j = 1..<128. g j) = (\<Sum>j = 1..<127. g j) + g 127"
proof -
  have "(\<Sum>j = 1..<Suc 127. g j) = (\<Sum>j = 1..<127. g j) + g 127"
    by (rule sum.atLeastLessThan_Suc) simp
  then show ?thesis by simp
qed

lemma neg_u_cells_sum:
  "\<exists>R. 0 < R \<and>
     sum_cells ideal_env u_cells
       (\<lambda>i j. pow ideal_env (neg_heap Ubufn i j - neg_heap Ubufo i j) (lit ideal_env 2 0))
     = Num (126 * (1905 / 100000000 * (1905 / 100000000)) + R)"
proof -
  define x :: "nat \<Rightarrow> real" where
    "x = (\<lambda>i. if i = 1 then 8875381 / 10000000
              else if i = 126 then 11125381 / 10000000 else 100001905 / 100000000)"
  define g :: "nat \<Rightarrow> nat \<Rightarrow> real" where
    "g = (\<lambda>i j. if j = 127 then (x i - 1) * (x i - 1)
                else if j = 126 then 1905 / 100000000 * (1905 / 100000000) else 0)"
  have cell: "pow ideal_env (neg_heap Ubufn i j - neg_heap Ubufo i j) (lit ideal_env 2 0) = Num (g i j)"
    if "1 \<le> i" "i < 127" "1 \<le> j" "j < 128" for i j
  proof (cases "j = 127")
    case True
    then show ?thesis
      using that
      by (simp add: g_def x_def neg_heap_un_top neg_heap_u_top lit_ideal ideal_arith pow_ideal_2)
  next
    case False
    then have "j < 127" using that by simp
    then show ?thesis
      using that False
      by (simp add: g_def neg_heap_un_all neg_heap_current lit_ideal ideal_arith pow_ideal_2)
  qed
  have "sum_cells ideal_env u_cells
       (\<lambda>i j. pow ideal_env (neg_heap Ubufn i j - neg_heap Ubufo i j) (lit ideal_env 2 0))
     = Num (\<Sum>i = 1..<127. \<Sum>j = 1..<128. g i j)"
    unfolding u_cells_numbers by (rule sum_cells_ideal) (rule cell)
  moreover have "(\<Sum>i = (1::nat)..<127. \<Sum>j = (1::nat)..<128. g i j)
      = 126 * (1905 / 100000000 * (1905 / 100000000))
        + (\<Sum>i = (1::nat)..<127. (x i - 1) * (x i - 1))"
  proof -
    have inner: "(\<Sum>j = (1::nat)..<128. g i j)
        = 1905 / 100000000 * (1905 / 100000000) + (x i - 1) * (x i - 1)" for i
    proof -
      have "(\<Sum>j = (1::nat)..<127. g i j)
          = (\<Sum>j = (1::nat)..<127. if j = 126 then 1905 / 100000000 * (1905 / 100000000) else 0)"
        by (rule sum.cong) (auto simp: g_def)
      also have "\<dots> = 1905 / 100000000 * (1905 / 100000000)"
        by (simp add: sum.delta)
      finally have low: "(\<Sum>j = (1::nat)..<127. g i j) = 1905 / 100000000 * (1905 / 100000000)" .
      have top: "g i 127 = (x i - 1) * (x i - 1)" by (simp add: g_def)
      show ?thesis unfolding sum_split_top low top ..
    qed
    show ?thesis unfolding inner by (simp add: sum.distrib)
  qed
  moreover have "0 < (\<Sum>i = (1::nat)..<127. (x i - 1) * (x i - 1))"
  proof -
    have "(x 2 - 1) * (x 2 - 1) \<le> (\<Sum>i = (1::nat)..<127. (x i - 1) * (x i - 1))"
      by (rule member_le_sum) simp_all
    moreover have "0 < (x 2 - 1) * (x 2 - 1)" by (simp add: x_def)
    ultimately show ?thesis by linarith
  qed
  ultimately show ?thesis
    by (intro exI [of _ "\<Sum>i = (1::nat)..<127. (x i - 1) * (x i - 1)"]) simp
qed

lemma max_ideal: "max (Num x) (Num y) = Num (max x y)"
  by (simp add: max_def less_eq_ideal_def)

lemma fst_compute_step: "fst (compute_step e q s) = l2_norm e q s (snd (compute_step e q s))"
  by (simp add: compute_step_def Let_def)

lemma l2_norm_fields:
  "err_u (l2_norm e q s h) = sqrt_d e (dtdxdy q * fst (l2_sums e q s h))"
  "err_v (l2_norm e q s h) = sqrt_d e (dtdxdy q * fst (snd (l2_sums e q s h)))"
  "err_p (l2_norm e q s h) = sqrt_d e (dtdxdy q * fst (snd (snd (l2_sums e q s h))))"
  "err_d (l2_norm e q s h) = snd (snd (snd (l2_sums e q s h)))"
  "err_tot (l2_norm e q s h) =
     fmaxof (err_u (l2_norm e q s h)) (err_v (l2_norm e q s h))
            (err_p (l2_norm e q s h)) (err_d (l2_norm e q s h))"
  by (simp_all add: l2_norm_def Let_def split: prod.splits)

lemma sqrt_d_small:
  assumes "0 \<le> x" "x \<le> 1 / 100000000000000"
  shows "\<exists>y. sqrt_d ideal_env (Num x) = Num y \<and> y \<le> 1 / 10000000"
proof -
  have "sqrt x \<le> 1 / 10000000"
    using assms by (intro real_le_lsqrt) (simp_all add: power2_eq_square)
  then show ?thesis using assms by (simp add: sqrt_ideal)
qed

lemma fmaxof_ideal_le:
  assumes "x \<le> t" "y \<le> t" "z \<le> t" "w \<le> t"
  shows "\<exists>m. fmaxof (Num x) (Num y) (Num z) (Num w) = Num m \<and> m \<le> t"
  using assms by (simp add: fmaxof_def max_ideal)

lemma neg_err_d:
  "err_d (fst (compute_step ideal_env neg_params neg_start)) = Num (- (1143 / 400000000))"
  unfolding fst_compute_step neg_heap_def [symmetric]
  by (simp add: l2_norm_fields neg_l2_sums)

lemma neg_err_tot:
  "\<exists>m. err_tot (fst (compute_step ideal_env neg_params neg_start)) = Num m \<and> m \<le> 1 / 10000000"
proof -
  let ?r = "l2_norm ideal_env neg_params neg_start neg_heap"
  obtain xu where xu: "err_u ?r = Num xu" "xu \<le> 1 / 10000000"
    using sqrt_d_small [of "15 / (100 * 127 * 127 * 127) * (126 * (1905 / 100000000 * (1905 / 100000000)))"]
    by (auto simp: l2_norm_fields neg_l2_sums neg_params_fields ideal_arith)
  obtain xv where xv: "err_v ?r = Num xv" "xv \<le> 1 / 10000000"
    using sqrt_d_small [of 0]
    by (auto simp: l2_norm_fields neg_l2_sums neg_params_fields ideal_arith)
  obtain xp where xp: "err_p ?r = Num xp" "xp \<le> 1 / 10000000"
    using sqrt_d_small [of "15 / (100 * 127 * 127 * 127)
        * (5 * (1905 / 100000000 * (15 / 100)) * (5 * (1905 / 100000000 * (15 / 100))))"]
    by (auto simp: l2_norm_fields neg_l2_sums neg_params_fields ideal_arith)
  have xd: "err_d ?r = Num (- (1143 / 400000000))"
    by (simp add: l2_norm_fields neg_l2_sums)
  have "\<exists>m. err_tot ?r = Num m \<and> m \<le> 1 / 10000000"
    unfolding l2_norm_fields(5) xu(1) xv(1) xp(1) xd
    using xu(2) xv(2) xp(2) by (intro fmaxof_ideal_le) simp_all
  then show ?thesis
    unfolding fst_compute_step neg_heap_def [symmetric] .
qed

lemma neg_run:
  "solver_loop ideal_env neg_params (compute_step ideal_env neg_params) neg_start =
     \<lparr> outcome = Converged, exit_code = EXIT_SUCCESS, freed = all_buffers,
       final = pass (compute_step ideal_env neg_params) neg_start \<rparr>"
proof -
  obtain m where m: "err_tot (fst (compute_step ideal_env neg_params neg_start)) = Num m" "m \<le> 1 / 10000000"
    using neg_err_tot by blast
  have nonan: "\<not> isnan ideal_env (err_tot (fst (compute_step ideal_env neg_params neg_start)))"
    by (simp add: m isnan_ideal)
  have stop: "\<not> (err_tot (fst (compute_step ideal_env neg_params neg_start)) > tol neg_params
               \<and> itr neg_start + 1 < itr_max)"
    using m(2) by (simp add: m(1) neg_params_fields less_ideal_Num)
  show ?thesis
    using solver_loop_stop [where e = ideal_env and c = "compute_step ideal_env neg_params"
        and s = neg_start and q = neg_params, OF nonan stop]
    by (simp add: neg_start_def itr_initial itr_max_def)
qed

lemma neg_main:
  "lidCavity_main ideal_env (Some (Num (- 1000000))) =
     \<lparr> outcome = Converged, exit_code = EXIT_SUCCESS, freed = all_buffers,
       final = pass (compute_step ideal_env neg_params) neg_start \<rparr>"
  using neg_run by (simp add: lidCavity_main_def Let_def neg_params_def neg_start_def)

lemma neg_last_log:
  "snd (last (flog (pass (compute_step ideal_env neg_params) neg_start))) = fst (compute_step ideal_env neg_params neg_start)"
  by (simp add: flog_pass)


lemma solver_loop_converged:
  assumes "itr s < itr_max" "outcome (solver_loop e q c s) = Converged"
  shows "\<exists>n. final (solver_loop e q c s) = pass c (state_at c s n)
            \<and> \<not> isnan e (err_tot (fst (c (state_at c s n))))
            \<and> \<not> err_tot (fst (c (state_at c s n))) > tol q"
  using assms
proof (induction "nat (itr_max - itr s)" arbitrary: s rule: less_induct)
  case less
  show ?case
  proof (cases "isnan e (err_tot (fst (c s)))")
    case True
    then show ?thesis using less.prems(2) by (simp add: solver_loop_diverge)
  next
    case nonan: False
    show ?thesis
    proof (cases "err_tot (fst (c s)) > tol q \<and> itr s + 1 < itr_max")
      case True
      then have eq: "solver_loop e q c s = solver_loop e q c (pass c s)"
        using nonan by (intro solver_loop_continue) simp_all
      have m: "nat (itr_max - itr (pass c s)) < nat (itr_max - itr s)"
        using True by (simp add: itr_pass)
      have "itr (pass c s) < itr_max" using True by (simp add: itr_pass)
      from less.hyps [OF m this] less.prems(2) obtain n where
        "final (solver_loop e q c (pass c s)) = pass c (state_at c (pass c s) n)
          \<and> \<not> isnan e (err_tot (fst (c (state_at c (pass c s) n))))
          \<and> \<not> err_tot (fst (c (state_at c (pass c s) n))) > tol q"
        unfolding eq by blast
      then show ?thesis
        unfolding eq state_at_shift by blast
    next
      case False
      then have res: "solver_loop e q c s =
          (if itr s + 1 = itr_max
           then \<lparr> outcome = MaxIterationsExceeded, exit_code = EXIT_FAILURE,
                  freed = all_buffers, final = pass c s \<rparr>
           else \<lparr> outcome = Converged, exit_code = EXIT_SUCCESS,
                  freed = all_buffers, final = pass c s \<rparr>)"
        using nonan by (intro solver_loop_stop) simp_all
      have ne: "itr s + 1 \<noteq> itr_max"
        using less.prems(2) by (auto simp: res)
      then have "\<not> err_tot (fst (c s)) > tol q"
        using False less.prems(1) by auto
      then show ?thesis
        using nonan ne by (intro exI [of _ 0]) (simp add: res state_at_0)
    qed
  qed
qed

lemma max_bound:
  fixes a b t :: "'a::ord"
  assumes ord: "number_order e"
    and n: "\<not> isnan e (max a b)" "\<not> isnan e b" "\<not> isnan e t"
    and le: "\<not> t < max a b"
  shows "b \<le> t"
proof -
  have mt: "max a b \<le> t"
    using ord n le unfolding number_order_def by blast
  show ?thesis
  proof (cases "a \<le> b")
    case True
    then show ?thesis using mt by (simp add: max_def)
  next
    case False
    then have m: "max a b = a" by (simp add: max_def)
    have "\<not> isnan e a" using n(1) m by simp
    then have "b \<le> a" using ord n(2) False unfolding number_order_def by blast
    moreover have "a \<le> t" using mt m by simp
    ultimately show ?thesis
      using ord n \<open>\<not> isnan e a\<close> unfolding number_order_def by blast
  qed
qed

lemma number_order_ideal: "number_order ideal_env"
  unfolding number_order_def isnan_ideal
proof (intro allI impI)
  fix a b c :: ideal
  assume "a \<noteq> NaN \<and> b \<noteq> NaN \<and> c \<noteq> NaN"
  then obtain x y z where "a = Num x" "b = Num y" "c = Num z"
    by (cases a; cases b; cases c) auto
  then show "(a < b \<or> b \<le> a) \<and> (a \<le> b \<or> b \<le> a) \<and> (a \<le> b \<and> b \<le> c \<longrightarrow> a \<le> c)"
    by (auto simp: less_ideal_def less_eq_ideal_def)
qed

section \<open>The claims\<close>

subsection \<open>C1: exit status and precedence of the outcomes\<close>

text \<open>
  C1 says that the run ends with exit code 0 exactly when some iteration meets the
  tolerance before the cap, with a nonzero code on not-a-number or at the cap, and that
  Converged takes precedence over MaxIterationsExceeded whenever the tolerance is met.

  The code tests \<^verbatim>\<open>itr == itr_max\<close> after the loop, whatever made the loop end. When
  the residual first meets the tolerance on pass 999,999 (the last pass the loop
  condition allows), the counter has just become 1,000,000, so the run prints "Maximum
  number of iterations exceeded" and exits with failure although the tolerance is met:
  for every numerical part \<open>c\<close> of the body whose first 999,998 residuals are above the
  tolerance and whose next residual is a number not above it, the outcome is
  MaxIterationsExceeded and the exit code is nonzero.
\<close>

theorem cap_pass_convergence_exits_with_failure:
  assumes "itr s = 1"
    and "\<forall>k<999998. \<not> isnan e (err_at c s k) \<and> err_at c s k > tol q"
    and "\<not> isnan e (err_at c s 999998)"
    and "\<not> err_at c s 999998 > tol q"
  shows "outcome (solver_loop e q c s) = MaxIterationsExceeded \<and>
         exit_code (solver_loop e q c s) \<noteq> 0"
proof -
  have "solver_loop e q c s = solver_loop e q c (state_at c s 999998)"
    using assms by (intro solver_loop_unroll) (simp_all add: itr_max_def)
  also have "\<dots> = \<lparr> outcome = MaxIterationsExceeded, exit_code = EXIT_FAILURE,
       freed = all_buffers, final = pass c (state_at c s 999998) \<rparr>"
    using assms by (subst solver_loop_stop) (simp_all add: err_at_def itr_state_at itr_max_def)
  finally show ?thesis by (simp add: EXIT_FAILURE_def)
qed


text \<open>
  The residual sequence 1.0 on passes 1 to 999,998 and 0.0 on pass 999,999, from the
  initial state of a run without argument.
\<close>

theorem cap_pass_convergence_exits_with_failure_witness:
  "outcome (solver_loop ideal_env (setup_params ideal_env (Num 100))
              (scripted (\<lambda>k. if k < 999999 then Num 1 else Num 0))
              (initial_state ideal_env (setup_params ideal_env (Num 100))))
     = MaxIterationsExceeded
   \<and> exit_code (solver_loop ideal_env (setup_params ideal_env (Num 100))
              (scripted (\<lambda>k. if k < 999999 then Num 1 else Num 0))
              (initial_state ideal_env (setup_params ideal_env (Num 100)))) \<noteq> 0
   \<and> \<not> err_at (scripted (\<lambda>k. if k < 999999 then Num 1 else Num 0))
              (initial_state ideal_env (setup_params ideal_env (Num 100))) 999998
          > tol (setup_params ideal_env (Num 100))"
proof -
  let ?q = "setup_params ideal_env (Num 100)"
  let ?c = "scripted (\<lambda>k. if k < 999999 then Num 1 else Num (0::real))"
  let ?s = "initial_state ideal_env ?q"
  have h1: "itr ?s = 1" by (rule itr_initial)
  have h2: "\<forall>k<999998. \<not> isnan ideal_env (err_at ?c ?s k) \<and> err_at ?c ?s k > tol ?q"
    by (simp add: err_at_scripted itr_initial isnan_ideal tol_setup lit_ideal less_ideal_Num)
  have h3: "\<not> isnan ideal_env (err_at ?c ?s 999998)"
    by (simp add: err_at_scripted itr_initial isnan_ideal)
  have h4: "\<not> err_at ?c ?s 999998 > tol ?q"
    by (simp add: err_at_scripted itr_initial tol_setup lit_ideal less_ideal_Num)
  from cap_pass_convergence_exits_with_failure [OF h1 h2 h3 h4] h4 show ?thesis by simp
qed

subsection \<open>C2: the pressure update reads the velocities computed in the same pass\<close>

text \<open>
  C2 says that in every iteration the pressure update writes, for every interior point,
  new p[i][j] = old p[i][j] - c2 times the discrete divergence of the velocity field
  newly computed in that same iteration: it reads the buffers un and vn after their
  update, never the buffers u and v.

  In a state whose six pointers name six different buffers (every state of a run), let
  \<open>h2\<close> be the heap after the two momentum loops of the pass and \<open>h5\<close> the heap the pass
  ends with. At every cell of the continuity loop's range, the cell of \<open>pn\<close> in \<open>h5\<close>
  is the cell of \<open>p\<close> at the head of the pass minus \<open>c2\<close> times the divergence of the
  buffers \<open>un\<close>, \<open>vn\<close> as they stand in \<open>h2\<close>; and nothing later in the pass changes
  \<open>un\<close> or \<open>vn\<close>.
\<close>

theorem pressure_update_reads_new_velocity:
  assumes "distinct_ptrs s" and "p_interior i j"
  shows "let h2 = v_momentum e q s (u_momentum e q s (heap s));
             h5 = snd (compute_step e q s)
         in h5 (pn s) i j
              = heap s (p s) i j - c2 q * divergence q (h2 (un s)) (h2 (vn s)) i j
            \<and> h5 (un s) = h2 (un s) \<and> h5 (vn s) = h2 (vn s)"
  using assms
  by (simp add: Let_def compute_step_pn compute_step_un compute_step_vn p_interior_def
        p_rhs_def divergence_def v_momentum_other ptrs_neq)

text \<open>The initial state of a run with Reynolds number 100, at the cell \<open>(1, 1)\<close>.\<close>

theorem pressure_update_reads_new_velocity_witness:
  "let q = setup_params ideal_env (Num 100);
       s = initial_state ideal_env q;
       h2 = v_momentum ideal_env q s (u_momentum ideal_env q s (heap s));
       h5 = snd (compute_step ideal_env q s)
   in distinct_ptrs s \<and> p_interior 1 1 \<and>
      h5 (pn s) 1 1 = heap s (p s) 1 1 - c2 q * divergence q (h2 (un s)) (h2 (vn s)) 1 1"
proof -
  let ?q = "setup_params ideal_env (Num 100)"
  let ?s = "initial_state ideal_env ?q"
  have h1: "distinct_ptrs ?s" by (rule distinct_ptrs_initial)
  have h2: "p_interior 1 1" by (rule interior_11)
  from pressure_update_reads_new_velocity [OF h1 h2, of ideal_env ?q] h1 h2 show ?thesis
    unfolding Let_def by blast
qed

subsection \<open>C3: the residuals\<close>

text \<open>
  C3 says that in every iteration err\_u, err\_v, err\_p = sqrt(dx dy dt times the sum
  of the squares of next - current) over the interior points, for u, v, p respectively,
  that err\_d is the signed sum over the interior points of the local discrete
  divergence of the new velocity field with no square root, and that
  err\_tot = max(err\_u, err\_v, err\_p, err\_d).

  The residual loop of lines 187-195 runs over \<open>xlo \<le> i < xhi\<close>, \<open>ylo \<le> j < yhi\<close> for
  all four sums. The cells that the u loop updates (\<open>u_interior\<close>) reach one row
  further, \<open>j = ytot - 2\<close>, the cells of the v loop one column further, and the cells of
  the continuity loop both; those cells do not enter the residuals. As amended: the
  sums run over the cells of \<open>residual_window\<close>, the same for all four residuals.

  \<open>res\<close> and \<open>h\<close> are the residuals and the heap a pass ends with, for the scalars
  \<^verbatim>\<open>main\<close> computes. \<open>sum_cells\<close> adds along the list of cells, row by row, which is the
  order of the sequential loop; in arithmetic that is a commutative monoid it is the sum
  over the set of cells (lemma \<open>sum_cells_window_is_sum\<close>). The factor is the product
  \<^verbatim>\<open>dt * dx * dy\<close> as line 97 forms it. The maximum is that of \<open>fmaxof\<close> as modelled from
  the spec.
\<close>

theorem residuals_sum_over_the_residual_window:
  "let q = setup_params e r;
       res = fst (compute_step e q s);
       h = snd (compute_step e q s);
       sq = (\<lambda>x. pow e x (lit e 2 0))
   in err_u res = sqrt_d e (dt q * dx q * dy q
                    * sum_cells e residual_window (\<lambda>i j. sq (h (un s) i j - h (u s) i j)))
    \<and> err_v res = sqrt_d e (dt q * dx q * dy q
                    * sum_cells e residual_window (\<lambda>i j. sq (h (vn s) i j - h (v s) i j)))
    \<and> err_p res = sqrt_d e (dt q * dx q * dy q
                    * sum_cells e residual_window (\<lambda>i j. sq (h (pn s) i j - h (p s) i j)))
    \<and> err_d res = sum_cells e residual_window (divergence q (h (un s)) (h (vn s)))
    \<and> err_tot res = max (max (max (err_u res) (err_v res)) (err_p res)) (err_d res)
    \<and> set residual_window = {(i, j). xlo \<le> i \<and> i < xhi \<and> ylo \<le> j \<and> j < yhi}"
  by (simp add: Let_def compute_step_def l2_norm_def l2_sums_cells fmaxof_def setup_ratios
        set_residual_window)

text \<open>
  The claim as stated, with the sum for err\_u taken over the interior points of u,
  fails on the first pass of the run \<^verbatim>\<open>lidCavity -1000000\<close> in the reference
  interpretation: the row \<open>j = ytot - 2\<close> of u, which the pass changes at every column,
  adds a positive amount to the sum over \<open>u_cells\<close> and nothing to err\_u.
\<close>

theorem err_u_is_not_the_sum_over_u_interior:
  "set u_cells = {(i, j). u_interior i j} \<and>
   err_u (fst (compute_step ideal_env neg_params neg_start))
     \<noteq> sqrt_d ideal_env (dt neg_params * dx neg_params * dy neg_params
          * sum_cells ideal_env u_cells
              (\<lambda>i j. pow ideal_env (snd (compute_step ideal_env neg_params neg_start) (un neg_start) i j
                                   - snd (compute_step ideal_env neg_params neg_start) (u neg_start) i j)
                        (lit ideal_env 2 0)))"
proof -
  obtain R where R: "0 < R"
    and S: "sum_cells ideal_env u_cells
       (\<lambda>i j. pow ideal_env (neg_heap Ubufn i j - neg_heap Ubufo i j) (lit ideal_env 2 0))
     = Num (126 * (1905 / 100000000 * (1905 / 100000000)) + R)"
    using neg_u_cells_sum by blast
  have k: "dt neg_params * dx neg_params * dy neg_params = Num (15 / (100 * 127 * 127 * 127))"
    using setup_ratios(5) [of ideal_env "Num (- 1000000)"]
    by (simp add: neg_params_def [symmetric] neg_params_fields)
  have lhs: "err_u (fst (compute_step ideal_env neg_params neg_start))
      = Num (sqrt (15 / (100 * 127 * 127 * 127) * (126 * (1905 / 100000000 * (1905 / 100000000)))))"
    unfolding fst_compute_step neg_heap_def [symmetric]
    by (simp add: l2_norm_fields neg_l2_sums neg_params_fields ideal_arith sqrt_ideal)
  have rhs: "sqrt_d ideal_env (dt neg_params * dx neg_params * dy neg_params
          * sum_cells ideal_env u_cells
              (\<lambda>i j. pow ideal_env (neg_heap Ubufn i j - neg_heap Ubufo i j) (lit ideal_env 2 0)))
      = Num (sqrt (15 / (100 * 127 * 127 * 127)
                   * (126 * (1905 / 100000000 * (1905 / 100000000)) + R)))"
    unfolding k S using R by (simp add: ideal_arith sqrt_ideal)
  have "15 / (100 * 127 * 127 * 127) * (126 * (1905 / 100000000 * (1905 / 100000000)))
      \<noteq> 15 / (100 * 127 * 127 * 127) * (126 * (1905 / 100000000 * (1905 / 100000000)) + R)"
    using R by simp
  then show ?thesis
    unfolding neg_heap_def [symmetric] neg_start_ptrs lhs rhs
    by (simp add: set_u_cells)
qed

subsection \<open>C4: the two momentum updates\<close>

text \<open>
  C4 says that in every iteration, for every interior u-point, new u = old u
  - 0.25 (dt/dx) (sq(u[i+1][j]+u[i][j]) - sq(u[i][j]+u[i-1][j]))
  - 0.25 (dt/dy) (staggered cross term u v) - (dt/dx) (p[i+1][j] - p[i][j])
  + nu (5-point Laplacian scaled by dt/(dx dx) and dt/(dy dy)), the squares sq being squares of
  sums of staggered neighbours, and that the v update is the counterpart in y.

  \<open>U\<close>, \<open>V\<close>, \<open>P\<close> are the current buffers at the head of the pass and \<open>h5\<close> the heap
  the pass ends with; \<open>(i, j)\<close> is a cell of the u loop and \<open>(k, l)\<close> a cell of the v
  loop. The operations are those of the type \<open>'a\<close> in the order the C expression
  evaluates them; \<open>pow\<close> is applied to the sum of two neighbours and 2.0. The last four
  conjuncts say what \<open>dtdx\<close>, \<open>dtdy\<close>, \<open>dtdxx\<close>, \<open>dtdyy\<close> are in the scalars \<^verbatim>\<open>main\<close>
  computes. That the values are binary64 values is outside the model.
\<close>

theorem momentum_updates_at_interior_points:
  assumes "distinct_ptrs s" and "u_interior i j" and "v_interior k l"
  shows "let U = heap s (u s); V = heap s (v s); P = heap s (p s);
             h5 = snd (compute_step e q s);
             two = lit e 2 0; quarter = lit e 25 (-2)
         in h5 (un s) i j =
                 U i j
                 - quarter * dtdx q * (pow e (U (i+1) j + U i j) two
                                       - pow e (U i j + U (i-1) j) two)
                 - quarter * dtdy q * ((U i (j+1) + U i j) * (V (i+1) j + V i j)
                                       - (U i j + U i (j-1)) * (V (i+1) (j-1) + V i (j-1)))
                 - dtdx q * (P (i+1) j - P i j)
                 + nu q * (dtdxx q * (U (i+1) j - two * U i j + U (i-1) j)
                           + dtdyy q * (U i (j+1) - two * U i j + U i (j-1)))
          \<and> h5 (vn s) k l =
                 V k l
                 - quarter * dtdx q * ((U k (l+1) + U k l) * (V (k+1) l + V k l)
                                       - (U (k-1) (l+1) + U (k-1) l) * (V k l + V (k-1) l))
                 - quarter * dtdy q * (pow e (V k (l+1) + V k l) two
                                       - pow e (V k l + V k (l-1)) two)
                 - dtdy q * (P k (l+1) - P k l)
                 + nu q * (dtdxx q * (V (k+1) l - two * V k l + V (k-1) l)
                           + dtdyy q * (V k (l+1) - two * V k l + V k (l-1)))
          \<and> dtdx (setup_params e r) = dt (setup_params e r) / dx (setup_params e r)
          \<and> dtdy (setup_params e r) = dt (setup_params e r) / dy (setup_params e r)
          \<and> dtdxx (setup_params e r)
              = dt (setup_params e r) / (dx (setup_params e r) * dx (setup_params e r))
          \<and> dtdyy (setup_params e r)
              = dt (setup_params e r) / (dy (setup_params e r) * dy (setup_params e r))"
  using assms ptrs_neq [OF assms(1)]
  by (simp add: Let_def compute_step_un compute_step_vn u_momentum_un v_momentum_vn
        u_momentum_other u_interior_def v_interior_def u_rhs_def v_rhs_def setup_ratios)

text \<open>The initial state of a run with Reynolds number 100, at the cell \<open>(1, 1)\<close> of both loops.\<close>

theorem momentum_updates_at_interior_points_witness:
  "let q = setup_params ideal_env (Num 100);
       s = initial_state ideal_env q;
       h5 = snd (compute_step ideal_env q s)
   in distinct_ptrs s \<and> u_interior 1 1 \<and> v_interior 1 1 \<and>
      h5 (un s) 1 1 = u_rhs ideal_env q (heap s (u s)) (heap s (v s)) (heap s (p s)) 1 1 \<and>
      h5 (vn s) 1 1 = v_rhs ideal_env q (heap s (u s)) (heap s (v s)) (heap s (p s)) 1 1"
proof -
  let ?q = "setup_params ideal_env (Num 100)"
  let ?s = "initial_state ideal_env ?q"
  have h1: "distinct_ptrs ?s" by (rule distinct_ptrs_initial)
  have h2: "u_interior 1 1" and h3: "v_interior 1 1" by (rule interior_11)+
  from momentum_updates_at_interior_points [OF h1 h2 h3, of ideal_env ?q] h1 h2 h3 show ?thesis
    unfolding Let_def u_rhs_def v_rhs_def by blast
qed

text \<open>
  In arithmetic that is a commutative ring the v right-hand side is the u right-hand
  side with the roles of the two directions exchanged (the two subtracted convective
  terms appear in the other order in the source, which rounding can tell apart).
\<close>

lemma v_rhs_mirrors_u_rhs:
  fixes U :: "('a::comm_ring) grid"
  shows "v_rhs e q U V P i j =
         u_rhs e (q\<lparr> dtdx := dtdy q, dtdy := dtdx q, dtdxx := dtdyy q, dtdyy := dtdxx q \<rparr>)
           (\<lambda>a b. V b a) (\<lambda>a b. U b a) (\<lambda>a b. P b a) j i"
  by (simp add: v_rhs_def u_rhs_def algebra_simps)

subsection \<open>C5: where the boundary passes are applied\<close>

text \<open>
  C5 says that the boundary passes run once at initialization, after every velocity
  update and after every pressure update, each applied to the just-updated fields, so
  that the boundary cells of the fields carried into the next iteration's stencil hold
  the Dirichlet values and the pressure ring mirrors its interior neighbour.

  Lines 170 and 181 hand the passes the current pointers \<^verbatim>\<open>u, v\<close> and \<^verbatim>\<open>p\<close>, not
  \<^verbatim>\<open>un, vn\<close> and \<^verbatim>\<open>pn\<close>. Whatever the two passes do with the buffers they are handed
  (the statement holds for every environment in which 0.0 and 1.0 differ): in a run
  from the initial state, the current buffers of the first pass are the first
  allocations, the current buffers after the first pass are the second allocations, and
  at every column the top row of the u buffer that the second pass reads still holds
  the 0.0 of the allocation, not the lid velocity \<^verbatim>\<open>ubc[0]\<close>.
\<close>

theorem first_pass_leaves_next_boundary_unset:
  assumes "lit e 0 0 \<noteq> lit e 1 0"
  shows "let q = setup_params e r;
             s0 = initial_state e q;
             s1 = pass (compute_step e q) s0
         in u s0 = Ubufo \<and> v s0 = Vbufo \<and> p s0 = Pbufo \<and>
            u s1 = Ubufn \<and> v s1 = Vbufn \<and> p s1 = Pbufn \<and>
            (\<forall>i. heap s1 (u s1) i (ytot - 1) = lit e 0 0) \<and>
            (\<forall>i. heap s1 (u s1) i (ytot - 1) \<noteq> ubc q ! 0)"
proof -
  let ?q = "setup_params e r"
  let ?s0 = "initial_state e ?q"
  have d: "distinct_ptrs ?s0" by (rule distinct_ptrs_initial)
  have ring: "\<not> u_interior i (ytot - 1)" for i by (simp add: u_interior_def)
  have "snd (compute_step e ?q ?s0) Ubufn i (ytot - 1) = lit e 0 0" for i
    using compute_step_next_ring(1) [OF d ring, of e ?q i]
    by (simp add: ptrs_initial heap_initial_next)
  then show ?thesis
    using assms by (simp add: Let_def pass_fields ptrs_initial ubc_setup)
qed

text \<open>The reference interpretation, Reynolds number 100, column 1.\<close>

theorem first_pass_leaves_next_boundary_unset_witness:
  "let q = setup_params ideal_env (Num 100);
       s0 = initial_state ideal_env q;
       s1 = pass (compute_step ideal_env q) s0
   in lit ideal_env 0 0 \<noteq> lit ideal_env 1 0 \<and>
      u s1 = Ubufn \<and> heap s1 (u s1) 1 (ytot - 1) = Num 0 \<and> ubc q ! 0 = Num 1"
proof -
  have h: "lit ideal_env 0 0 \<noteq> lit ideal_env 1 0" by (simp add: lit_ideal)
  from first_pass_leaves_next_boundary_unset [OF h, of "Num 100", unfolded Let_def] h show ?thesis
    by (auto simp: Let_def lit_ideal ubc_setup)
qed

subsection \<open>C6: the update loops write interior cells of the next buffers only\<close>

text \<open>
  C6 says that the three update loops write only into interior cells of un, vn, pn:
  every cell of u, v, p and every cell on the ring of the next buffers is unchanged by
  the integration step until the pointer swap at the end of the iteration.

  For each of the three loops, run on any heap \<open>h\<close>: a cell \<open>(b, i, j)\<close> that is not a
  cell of the loop's range in the loop's next buffer has the value it had; and none of
  the next buffers is one of the current buffers. (Within a pass the current buffers are
  written by the boundary passes only, and the pointers change in \<open>commit\<close>.)
\<close>

theorem update_loops_write_next_interior_only:
  assumes "distinct_ptrs s"
  shows "(b \<noteq> un s \<or> \<not> u_interior i j \<longrightarrow> u_momentum e q s h b i j = h b i j)
       \<and> (b \<noteq> vn s \<or> \<not> v_interior i j \<longrightarrow> v_momentum e q s h b i j = h b i j)
       \<and> (b \<noteq> pn s \<or> \<not> p_interior i j \<longrightarrow> continuity q s h b i j = h b i j)
       \<and> un s \<notin> {u s, v s, p s} \<and> vn s \<notin> {u s, v s, p s} \<and> pn s \<notin> {u s, v s, p s}"
  using assms ptrs_neq [OF assms]
  by (auto simp: u_momentum_eq v_momentum_eq continuity_eq u_interior_def v_interior_def
        p_interior_def)

text \<open>The initial state of a run with Reynolds number 100: the cell \<open>(1, 1)\<close> of the current u buffer.\<close>

theorem update_loops_write_next_interior_only_witness:
  "let q = setup_params ideal_env (Num 100);
       s = initial_state ideal_env q;
       h = heap s
   in distinct_ptrs s \<and> u s \<noteq> un s \<and> u s \<noteq> vn s \<and> u s \<noteq> pn s \<and> u_interior 1 1 \<and>
      u_momentum ideal_env q s h (u s) 1 1 = h (u s) 1 1 \<and>
      v_momentum ideal_env q s h (u s) 1 1 = h (u s) 1 1 \<and>
      continuity q s h (u s) 1 1 = h (u s) 1 1"
proof -
  let ?q = "setup_params ideal_env (Num 100)"
  let ?s = "initial_state ideal_env ?q"
  have h1: "distinct_ptrs ?s" by (rule distinct_ptrs_initial)
  note n = ptrs_neq [OF h1]
  from update_loops_write_next_interior_only [OF h1, of "u ?s" 1 1 ideal_env ?q "heap ?s"] h1 n interior_11 show ?thesis
    unfolding Let_def by blast
qed

subsection \<open>C7: the state after the initial conditions\<close>

text \<open>
  C7 says that after initialization and before the first boundary pass every cell of
  every buffer is zero except the rows \<open>ytot - 1\<close> and \<open>ytot - 2\<close> of u's current buffer,
  which for every column hold the lid velocity \<^verbatim>\<open>ubc[0]\<close>.

  The seeding loop of lines 125-128 runs over \<open>xlo \<le> i < xhi\<close>, so the columns \<open>0\<close> and
  \<open>IX - 1\<close> of the two rows are not seeded. As amended: every cell is 0.0 except the
  cells \<open>(i, ytot - 1)\<close> and \<open>(i, ytot - 2)\<close> of u's current buffer with \<open>xlo \<le> i < xhi\<close>,
  which hold \<^verbatim>\<open>ubc[0]\<close> (1.0 in the scalars \<^verbatim>\<open>main\<close> computes).
\<close>

theorem seeded_state_cells:
  "heap (seeded_state e q) b i j =
     (if b = u (seeded_state e q) \<and> xlo \<le> i \<and> i < xhi \<and> (j = ytot - 1 \<or> j = ytot - 2)
      then ubc q ! 0 else lit e 0 0)
   \<and> u (seeded_state e q) = Ubufo
   \<and> ubc (setup_params e r) ! 0 = lit e 1 0"
  by (simp add: heap_seeded ubc_setup ptrs_seeded)

text \<open>
  The claim as stated fails at column 0 of the top row: the cell holds the 0.0 of the
  allocation, and \<^verbatim>\<open>ubc[0]\<close> is 1.0.
\<close>

theorem seeded_top_row_column_0_not_lid:
  "heap (seeded_state ideal_env (setup_params ideal_env (Num 100)))
        (u (seeded_state ideal_env (setup_params ideal_env (Num 100)))) 0 (ytot - 1)
     \<noteq> ubc (setup_params ideal_env (Num 100)) ! 0"
proof -
  show ?thesis
    by (simp add: ptrs_seeded heap_seeded ubc_setup xlo_def lit_ideal)
qed

subsection \<open>C8: what the convergence test bounds\<close>

text \<open>
  C8 says that whenever the loop exits with the Converged outcome, the magnitude of the
  final iteration's err\_d is at most the tolerance 1e-7, not merely the signed value.

  The loop tests only \<^verbatim>\<open>err_tot > tol\<close>, and err\_d enters err\_tot as a signed sum. As
  amended: when \<^verbatim>\<open>main\<close> ends with the Converged outcome, the residuals of the last log
  line have an err\_tot that is a number, is not above 1e-7 and is the maximum of
  err\_u, err\_v, err\_p and the signed err\_d; hence err\_d, when it is a number, is at
  most 1e-7 as a signed value. The lower bound of the claim is dropped.

  The step from err\_tot to err\_d needs the comparisons to order the numbers (the values
  that are not not-a-number) totally and transitively, which \<open>number_order\<close> states and
  which holds of the doubles; 1e-7 is a number.
\<close>

theorem converged_run_bounds_err_d_above:
  assumes "outcome (lidCavity_main e arg) = Converged"
    and "number_order e"
    and "\<not> isnan e (lit e 1 (-7))"
  shows "let res = lidCavity_main e arg;
             r = snd (last (flog (final res)))
         in flog (final res) \<noteq> []
            \<and> \<not> isnan e (err_tot r)
            \<and> \<not> err_tot r > lit e 1 (-7)
            \<and> err_tot r = max (max (max (err_u r) (err_v r)) (err_p r)) (err_d r)
            \<and> (\<not> isnan e (err_d r) \<longrightarrow> err_d r \<le> lit e 1 (-7))"
proof -
  define q where "q = setup_params e (case arg of None \<Rightarrow> lit e 100 0 | Some x \<Rightarrow> x)"
  define c where "c = compute_step e q"
  define s where "s = initial_state e q"
  have main: "lidCavity_main e arg = solver_loop e q c s"
    by (simp add: lidCavity_main_def Let_def q_def c_def s_def)
  have "itr s < itr_max" by (simp add: s_def itr_initial itr_max_def)
  from solver_loop_converged [OF this assms(1) [unfolded main]] obtain n where
    fin: "final (solver_loop e q c s) = pass c (state_at c s n)"
    and nonan: "\<not> isnan e (err_tot (fst (c (state_at c s n))))"
    and small: "\<not> err_tot (fst (c (state_at c s n))) > tol q"
    by blast
  define r where "r = fst (c (state_at c s n))"
  have last: "snd (last (flog (pass c (state_at c s n)))) = r"
    by (simp add: flog_pass r_def)
  have tot: "err_tot r = max (max (max (err_u r) (err_v r)) (err_p r)) (err_d r)"
    unfolding r_def c_def fst_compute_step l2_norm_fields(5) fmaxof_def ..
  have tolq: "tol q = lit e 1 (-7)" by (simp add: q_def tol_setup)
  have bound: "err_d r \<le> lit e 1 (-7)" if "\<not> isnan e (err_d r)"
  proof (rule max_bound [OF assms(2) _ that assms(3)])
    show "\<not> isnan e (max (max (max (err_u r) (err_v r)) (err_p r)) (err_d r))"
      using nonan unfolding r_def [symmetric] tot .
    show "\<not> lit e 1 (-7) < max (max (max (err_u r) (err_v r)) (err_p r)) (err_d r)"
      using small unfolding r_def [symmetric] tot tolq .
  qed
  have "flog (pass c (state_at c s n)) \<noteq> []" by (simp add: flog_pass)
  moreover have "\<not> isnan e (err_tot r)" using nonan by (simp add: r_def)
  moreover have "\<not> err_tot r > lit e 1 (-7)" using small by (simp add: r_def tolq)
  ultimately show ?thesis
    unfolding main Let_def fin last using tot bound by blast
qed

text \<open>
  The run \<^verbatim>\<open>lidCavity -1000000\<close> in the reference interpretation. \<^verbatim>\<open>strtod\<close> accepts the
  argument and nothing in \<^verbatim>\<open>main\<close> rejects a negative Reynolds number; the viscosity is
  then \<open>- 10\<^sup>-\<^sup>6\<close>. Within the range of the residual loop the first pass changes u
  only in the row \<open>j = IY - 2\<close>, just below the seeded rows, by \<open>nu * dtdyy\<close>; err\_u,
  err\_v and err\_p are about 5.8e-8, 0 and 3.9e-9, so the run ends
  with "Converged" and exit code 0 after that pass, while err\_d is -2.8575e-6, more
  than 28 times the tolerance in magnitude.
\<close>

theorem converged_with_err_d_below_minus_tol:
  "let res = lidCavity_main ideal_env (Some (Num (- 1000000)));
       r = snd (last (flog (final res)))
   in outcome res = Converged \<and> exit_code res = 0
      \<and> err_d r = Num (- (1143 / 400000000))
      \<and> err_d r < Num (- (1 / 10000000))"
  by (simp add: neg_main neg_last_log neg_err_d less_ideal_Num EXIT_SUCCESS_def)

text \<open>The same run: its outcome is Converged, and its err\_d is a number.\<close>

theorem converged_run_bounds_err_d_above_witness:
  "let res = lidCavity_main ideal_env (Some (Num (- 1000000)));
       r = snd (last (flog (final res)))
   in outcome res = Converged
      \<and> number_order ideal_env
      \<and> \<not> isnan ideal_env (lit ideal_env 1 (-7))
      \<and> \<not> isnan ideal_env (err_d r)
      \<and> \<not> isnan ideal_env (err_tot r)
      \<and> \<not> err_tot r > lit ideal_env 1 (-7)
      \<and> err_d r \<le> lit ideal_env 1 (-7)"
proof -
  have h1: "outcome (lidCavity_main ideal_env (Some (Num (- 1000000)))) = Converged"
    by (simp add: neg_main)
  have h2: "number_order ideal_env" by (rule number_order_ideal)
  have h3: "\<not> isnan ideal_env (lit ideal_env 1 (-7))"
    by (simp add: isnan_ideal lit_ideal)
  have h4: "\<not> isnan ideal_env
      (err_d (snd (last (flog (final (lidCavity_main ideal_env (Some (Num (- 1000000)))))))))"
    by (simp add: neg_main neg_last_log neg_err_d isnan_ideal)
  from converged_run_bounds_err_d_above [OF h1 h2 h3] h1 h2 h3 h4 show ?thesis
    unfolding Let_def by blast
qed

subsection \<open>C9: the loop ends after at most 999,999 passes\<close>

text \<open>
  C9 says that for every input and every sequence of residuals the solver loop
  terminates: the counter starts at 1, grows by exactly 1 per pass, and the loop goes on
  only while it is below 1,000,000, so the body runs at most 999,999 times.

  \<open>solver_loop\<close> is a total function (its termination is proved where it is defined, by
  the measure \<open>itr_max - itr\<close>). For every numerical part \<open>c\<close> of the body: the counter
  is 1 in the initial state, a pass that stays in the loop adds 1, and the run from the
  initial state ends in its pass \<open>n + 1\<close> for some \<open>n < 999999\<close>: either that pass finds
  a not-a-number and exits before its swap, or it is completed and the loop is left
  after it.
\<close>

theorem solver_loop_at_most_999999_passes:
  "itr (initial_state e q) = 1 \<and>
   itr (pass c s) = itr s + 1 \<and>
   (\<exists>n<999999.
      let res = solver_loop e q c (initial_state e q);
          t = state_at c (initial_state e q) n
      in (outcome res = Diverged \<and> final res = t\<lparr> heap := snd (c t) \<rparr>)
         \<or> (outcome res \<noteq> Diverged \<and> final res = pass c t))"
proof -
  obtain n where n: "int n < max 1 (itr_max - itr (initial_state e q))"
    and ex: "let res = solver_loop e q c (initial_state e q);
          t = state_at c (initial_state e q) n
      in (outcome res = Diverged \<and> final res = t\<lparr> heap := snd (c t) \<rparr>)
         \<or> (outcome res \<noteq> Diverged \<and> final res = pass c t)"
    using solver_loop_exit_pass [of "initial_state e q" e q c] by blast
  have "n < 999999" using n by (simp add: itr_initial itr_max_def)
  with ex show ?thesis by (auto simp: itr_initial itr_pass)
qed


subsection \<open>C10: a diverging pass leaves no log line and no swap\<close>

text \<open>
  C10 says that if err\_tot is not-a-number at some iteration, the program frees all six
  field buffers and exits with failure before writing that iteration's log line and
  before swapping the pointers.

  Take a run from a state with an empty log whose first \<open>n\<close> passes stay in the loop
  and whose pass \<open>n + 1\<close> computes a not-a-number. Then the outcome is Diverged, the exit
  code is \<^verbatim>\<open>EXIT_FAILURE\<close>, the buffers handed to \<^verbatim>\<open>freeMem\<close> are all six, the log at
  the exit is the log at the head of pass \<open>n + 1\<close> (its lines carry the counters of the
  \<open>n\<close> passes before and no other), and the counter and the six pointers are those at
  the head of that pass.
\<close>

theorem nan_exit_before_log_and_swap:
  assumes "flog s = []"
    and "\<forall>k<n. \<not> isnan e (err_at c s k) \<and> err_at c s k > tol q"
    and "itr s + int n < itr_max"
    and "isnan e (err_at c s n)"
  shows "let res = solver_loop e q c s; t = state_at c s n
         in outcome res = Diverged \<and> exit_code res = EXIT_FAILURE \<and> EXIT_FAILURE \<noteq> 0 \<and>
            set (freed res) = UNIV \<and>
            flog (final res) = flog t \<and>
            map fst (flog (final res)) = map (\<lambda>k. itr s + int k) [0..<n] \<and>
            itr (final res) = itr s + int n \<and>
            u (final res) = u t \<and> un (final res) = un t \<and>
            v (final res) = v t \<and> vn (final res) = vn t \<and>
            p (final res) = p t \<and> pn (final res) = pn t"
proof -
  have "solver_loop e q c s = solver_loop e q c (state_at c s n)"
    using assms by (intro solver_loop_unroll) simp_all
  also have "\<dots> = \<lparr> outcome = Diverged, exit_code = EXIT_FAILURE, freed = all_buffers,
       final = (state_at c s n)\<lparr> heap := snd (c (state_at c s n)) \<rparr> \<rparr>"
    using assms(4) by (intro solver_loop_diverge) (simp add: err_at_def)
  finally show ?thesis
    using assms(1) by (simp add: Let_def UNIV_bufid logged_itrs itr_state_at EXIT_FAILURE_def)
qed


text \<open>The residual sequence 1.0, 1.0, not-a-number from the initial state.\<close>

theorem nan_exit_before_log_and_swap_witness:
  "let c = scripted (\<lambda>k. if k < 3 then Num 1 else NaN);
       q = setup_params ideal_env (Num 100);
       s = initial_state ideal_env q;
       res = solver_loop ideal_env q c s
   in isnan ideal_env (err_at c s 2) \<and> outcome res = Diverged \<and> exit_code res = EXIT_FAILURE \<and>
      set (freed res) = UNIV \<and> map fst (flog (final res)) = [1, 2] \<and> itr (final res) = 3 \<and>
      u (final res) = u (state_at c s 2) \<and> un (final res) = un (state_at c s 2)"
proof -
  let ?c = "scripted (\<lambda>k. if k < 3 then Num 1 else NaN)"
  let ?q = "setup_params ideal_env (Num 100)"
  let ?s = "initial_state ideal_env ?q"
  have h1: "flog ?s = []" by (rule flog_initial)
  have h2: "\<forall>k<2. \<not> isnan ideal_env (err_at ?c ?s k) \<and> err_at ?c ?s k > tol ?q"
    by (simp add: err_at_scripted itr_initial isnan_ideal tol_setup lit_ideal less_ideal_Num)
  have h3: "itr ?s + int 2 < itr_max" by (simp add: itr_initial itr_max_def)
  have h4: "isnan ideal_env (err_at ?c ?s 2)"
    by (simp add: err_at_scripted itr_initial isnan_ideal)
  have up: "[0..<2] = [0, 1]" by (simp add: upt_rec)
  let ?res = "solver_loop ideal_env ?q ?c ?s"
  note th = nan_exit_before_log_and_swap [OF h1 h2 h3 h4, unfolded Let_def]
  from th have "outcome ?res = Diverged" and "exit_code ?res = EXIT_FAILURE"
    and "set (freed ?res) = UNIV"
    and "map fst (flog (final ?res)) = map (\<lambda>k. itr ?s + int k) [0..<2]"
    and "itr (final ?res) = itr ?s + int 2"
    and "u (final ?res) = u (state_at ?c ?s 2)"
    and "un (final ?res) = un (state_at ?c ?s 2)"
    by blast+
  then show ?thesis
    using h4 by (simp add: Let_def itr_initial up)
qed

end
